theory Spec2Isabelle
  imports Main "HOL-Library.AList"
begin

section \<open>Python values used by WebScrapper.py\<close>

text \<open>
  Exceptions are values. Every constructor stands for a class derived from Python's
  \<^verbatim>\<open>Exception\<close>, which is what the handlers of the source (\<^verbatim>\<open>except Exception\<close>) catch;
  \<^verbatim>\<open>OtherException\<close> carries the message of any other such class raised by a library
  (requests, soupsieve, selenium, sqlite3, the operating system). Interpreter signals outside
  that hierarchy (KeyboardInterrupt, SystemExit) are not failures of a run and are not modelled.
\<close>

datatype exn =
    IndexError
  | KeyError string
  | ValueError string
  | OverflowError
  | HTTPError nat
  | NoSuchElementException string
  | TimeoutException string
  | OtherException string

text \<open>
  A scraped item is a Python \<^verbatim>\<open>dict\<close> from field names to \<^verbatim>\<open>str\<close> or \<^verbatim>\<open>None\<close>. Dicts keep
  insertion order, so an item is an association list; \<^verbatim>\<open>item[k] = v\<close> is \<open>AList.update k v\<close>
  (overwrite in place, or append), and \<open>map_of\<close> reads a key.
\<close>

type_synonym item = "(string \<times> string option) list"

subsection \<open>Strings\<close>

text \<open>
  A Python \<^verbatim>\<open>str\<close> is a sequence of code points. A \<open>char\<close> stands for a code point below 256
  (U+0000 to U+00FF, \<open>of_char\<close> gives its number), so a \<open>string\<close> is a \<^verbatim>\<open>str\<close> whose code points
  are all below 256; text with higher code points is not covered.

  The whitespace of Python, by code point (\<^verbatim>\<open>str.isspace\<close>): 9 to 13 (tab, line feed, vertical
  tab, form feed, carriage return), 28 to 31 (the separators FS, GS, RS, US), 32 (space), 133
  (U+0085, next line), 160 (U+00A0, no-break space), and above 255 the code points U+1680,
  U+2000 to U+200A, U+2028, U+2029, U+202F, U+205F and U+3000. \<^verbatim>\<open>str.strip()\<close> removes the
  characters that are whitespace in this sense.
\<close>

definition unicode_space :: "nat \<Rightarrow> bool" where
  "unicode_space n =
     ((9 \<le> n \<and> n \<le> 13) \<or> (28 \<le> n \<and> n \<le> 32) \<or> n = 133 \<or> n = 160 \<or> n = 5760 \<or>
      (8192 \<le> n \<and> n \<le> 8202) \<or> n = 8232 \<or> n = 8233 \<or> n = 8239 \<or> n = 8287 \<or> n = 12288)"

definition isspace :: "char \<Rightarrow> bool" where
  "isspace c = unicode_space (of_char c)"

definition isdigit :: "char \<Rightarrow> bool" where
  "isdigit c = (let n = (of_char c :: nat) in 48 \<le> n \<and> n \<le> 57)"

definition strip :: "string \<Rightarrow> string" where
  "strip s = rev (dropWhile isspace (rev (dropWhile isspace s)))"

definition endswith :: "string \<Rightarrow> string \<Rightarrow> bool" where
  "endswith s suffix = (length suffix \<le> length s \<and> drop (length s - length suffix) s = suffix)"

text \<open>\<^verbatim>\<open>s[:-n]\<close> for a positive literal \<open>n\<close>: everything but the last \<open>n\<close> characters.\<close>

definition drop_last :: "nat \<Rightarrow> string \<Rightarrow> string" where
  "drop_last n s = take (length s - n) s"

text \<open>
  \<^verbatim>\<open>int(s)\<close> on a string. The whitespace \<^verbatim>\<open>int\<close> drops around the literal is not that of
  \<^verbatim>\<open>str.strip()\<close>: the parser skips the ASCII whitespace of C (codes 9 to 13 and 32), after
  every whitespace character above 127 has been replaced by a space; the separators 28 to 31
  are not skipped (\<^verbatim>\<open>int('\x1f5')\<close> raises). Then one sign is allowed, then decimal digits, with
  single underscores allowed between digits. \<^verbatim>\<open>int\<close> also reads the decimal digits of other
  scripts, all of which lie above 255: below 256 the decimal digits are \<^verbatim>\<open>0\<close> to \<^verbatim>\<open>9\<close>.
  Anything else raises ValueError, and so does a literal of more than 4300 digits (the limit
  \<^verbatim>\<open>sys.get_int_max_str_digits()\<close> of Python 3.11 and later at its default; the sign and the
  underscores are not counted).
\<close>

definition int_space :: "char \<Rightarrow> bool" where
  "int_space c =
     (let n = (of_char c :: nat) in (9 \<le> n \<and> n \<le> 13) \<or> n = 32 \<or> (127 < n \<and> unicode_space n))"

definition int_strip :: "string \<Rightarrow> string" where
  "int_strip s = rev (dropWhile int_space (rev (dropWhile int_space s)))"

definition max_str_digits :: nat where
  "max_str_digits = 4300"

fun digits_value :: "bool \<Rightarrow> string \<Rightarrow> nat \<Rightarrow> nat option" where
  "digits_value prev [] acc = (if prev then Some acc else None)"
| "digits_value prev (c # cs) acc =
     (if isdigit c then digits_value True cs (10 * acc + (of_char c - 48))
      else if c = CHR ''_'' \<and> prev then digits_value False cs acc
      else None)"

definition py_int :: "string \<Rightarrow> exn + int" where
  "py_int s =
     (case int_strip s of
        [] \<Rightarrow> Inl (ValueError s)
      | c # cs \<Rightarrow>
          (let literal = (if c = CHR ''-'' \<or> c = CHR ''+'' then cs else c # cs) in
           case digits_value False literal 0 of
             None \<Rightarrow> Inl (ValueError s)
           | Some n \<Rightarrow>
               if max_str_digits < length (filter isdigit literal) then Inl (ValueError s)
               else Inr (if c = CHR ''-'' then - int n else int n)))"

text \<open>
  Truthiness of an optional string, as in \<^verbatim>\<open>if element.get('href'):\<close>: \<^verbatim>\<open>None\<close> and the
  empty string are false.
\<close>

definition truthy :: "string option \<Rightarrow> bool" where
  "truthy v = (case v of None \<Rightarrow> False | Some s \<Rightarrow> s \<noteq> [])"

subsection \<open>Clock readings as text\<close>

text \<open>
  The clock counts whole time units (the seconds of \<^verbatim>\<open>time.sleep\<close>). The calendar layout of
  \<^verbatim>\<open>isoformat()\<close> and \<^verbatim>\<open>strftime('%Y%m%d_%H%M%S')\<close> is abstracted to the decimal numeral of the
  reading: only which reading a text denotes matters below.
\<close>

fun decimal :: "nat \<Rightarrow> string" where
  "decimal n =
     (if n < 10 then [''0123456789'' ! n]
      else decimal (n div 10) @ [''0123456789'' ! (n mod 10)])"

declare decimal.simps [simp del]

definition isoformat :: "nat \<Rightarrow> string" where
  "isoformat t = decimal t"

definition strftime :: "nat \<Rightarrow> string" where
  "strftime t = decimal t"

section \<open>The configuration of a job\<close>

text \<open>
  The dataclass \<^verbatim>\<open>ScrapeConfig\<close>. \<open>selectors\<close> is a dict, kept as the list of its entries in
  insertion order (a dict has no two entries with one key).
\<close>

record ScrapeConfig =
  name :: string
  url :: string
  scrape_type :: string
  selectors :: "(string \<times> string) list"
  schedule_interval :: string
  output_format :: string
  max_retries :: int
  timeout :: int
  headers :: "(string \<times> string) list option"
  wait_for_element :: "string option"

section \<open>The outside world\<close>

subsection \<open>Documents\<close>

text \<open>
  A parsed BeautifulSoup element: its attributes, the text nodes below it in document order,
  and the selector engine scoped to it (\<open>css t sel\<close> is what \<^verbatim>\<open>t.select(sel)\<close> gives: the
  matching descendants in document order, or the exception soupsieve raises for a selector
  it cannot parse). The parsed page itself is such an element.
\<close>

datatype tag = Tag (attrs: "(string \<times> string) list") (strings: "string list")
  (css: "string \<Rightarrow> exn + tag list")

definition select :: "tag \<Rightarrow> string \<Rightarrow> exn + tag list" where
  "select t sel = css t sel"

definition select_one :: "tag \<Rightarrow> string \<Rightarrow> exn + tag option" where
  "select_one t sel =
     (case css t sel of Inl e \<Rightarrow> Inl e | Inr [] \<Rightarrow> Inr None | Inr (x # _) \<Rightarrow> Inr (Some x))"

definition tag_get :: "tag \<Rightarrow> string \<Rightarrow> string option" where
  "tag_get t a = map_of (attrs t) a"

text \<open>
  \<^verbatim>\<open>get_text(strip=True)\<close>: every text node is stripped, the empty ones are dropped, the rest
  are joined with the empty separator.
\<close>

definition get_text_strip :: "tag \<Rightarrow> string" where
  "get_text_strip t = concat (filter (\<lambda>s. s \<noteq> []) (map strip (strings t)))"

record response =
  status_code :: nat
  content :: tag

definition raise_for_status :: "response \<Rightarrow> exn + unit" where
  "raise_for_status r =
     (if 400 \<le> status_code r \<and> status_code r < 600 then Inl (HTTPError (status_code r)) else Inr ())"

text \<open>
  A Selenium element of a rendered page: reading an attribute or the text, and looking up
  descendants, are calls to the browser and may raise.
\<close>

datatype web_element = WebElement (get_attribute: "string \<Rightarrow> exn + string option")
  (el_text: "exn + string") (find_elements: "string \<Rightarrow> exn + web_element list")

text \<open>\<^verbatim>\<open>find_element\<close> gives the first match and raises NoSuchElementException when there is none.\<close>

definition find_element :: "web_element \<Rightarrow> string \<Rightarrow> exn + web_element" where
  "find_element el sel =
     (case find_elements el sel of
        Inl e \<Rightarrow> Inl e
      | Inr [] \<Rightarrow> Inl (NoSuchElementException sel)
      | Inr (x # _) \<Rightarrow> Inr x)"

text \<open>
  A browser session started by \<^verbatim>\<open>webdriver.Chrome\<close>: navigation, waiting for a selector to
  be present, and the document-wide lookup \<^verbatim>\<open>driver.find_elements\<close>.
\<close>

record browser =
  navigate :: "string \<Rightarrow> exn option"
  wait_until :: "string \<Rightarrow> exn option"
  page_elements :: "string \<Rightarrow> exn + web_element list"

subsection \<open>Logging, sinks, triggers\<close>

datatype level = INFO | WARNING | ERROR

text \<open>One constructor for each logging call of the source, with the values it formats.\<close>

datatype logmsg =
    StartingStatic string
  | StaticCompleted nat
  | StartingDynamic string
  | DynamicCompleted nat
  | AttemptFailed nat exn
  | NoDataCsv
  | ExportedCsv string
  | ExportedJson string
  | NoDataDb
  | ExportedDb string string
  | InvalidInterval string
  | JobAdded string string
  | RunningJob string
  | JobCompleted string
  | JobFailed string exn
  | JobNotFound string
  | SchedulerStarted
  | SchedulerStopped

text \<open>
  What a file holds after an export: the rows of a CSV file, or the value \<^verbatim>\<open>json.dump\<close>
  serialised (\<^verbatim>\<open>None\<close> is the JSON \<^verbatim>\<open>null\<close>, the empty list is \<^verbatim>\<open>[]\<close>).
\<close>

datatype document = CsvFile "item list" | JsonFile "item list option"

datatype time_unit = Minutes | Hours | Days

text \<open>A job of the \<^verbatim>\<open>schedule\<close> library: \<^verbatim>\<open>every(n).unit.do(self._run_job, job_name)\<close>.\<close>

record trigger =
  every :: int
  unit :: time_unit
  job_arg :: string
  next_run :: int

text \<open>
  How a call ends: it returns, it raises, or it does not return at all.
\<close>

datatype ending = Returned | Raised exn | NoReturn

text \<open>
  The state all functions thread through. \<open>pending\<close> lists how much time the environment lets
  pass before each successive reading of the wall clock; \<open>http\<close> and \<open>chrome\<close> list the
  outcomes of the successive \<^verbatim>\<open>session.get\<close> and \<^verbatim>\<open>webdriver.Chrome\<close> calls; \<open>driver\<close> is the
  attribute \<^verbatim>\<open>self.driver\<close> of the scraper in use; \<open>write_fault\<close> says which file names the
  operating system refuses.

  \<open>db_fault tables db_name table_name rows\<close> is the exception, if any, with which
  \<^verbatim>\<open>sqlite3.connect\<close> or \<^verbatim>\<open>to_sql\<close> answers the appending of \<open>rows\<close> to that table when the
  databases hold \<open>tables\<close>: it may depend on the database, on the table as it is (a batch with a
  field the existing table has no column for is refused) and on the rows.

  \<open>every_do n u t\<close> is how the \<^verbatim>\<open>schedule\<close> library ends the call
  \<^verbatim>\<open>every(n).<unit>.do(...)\<close> made at clock \<open>t\<close>. The library is not part of the repository and
  its answer depends on its version: it computes \<^verbatim>\<open>timedelta(**{unit: n})\<close> and adds it to the
  current date, which raises OverflowError when either is out of range; version 1.2 then
  advances the date by that period until it lies in the future, which for the period 0 never
  ends.
\<close>

record world =
  now :: nat
  pending :: "nat list"
  logs :: "(level \<times> logmsg) list"
  http :: "(exn + response) list"
  chrome :: "(exn + browser) list"
  driver :: "browser option"
  quits :: nat
  files :: "(string \<times> document) list"
  tables :: "((string \<times> string) \<times> item list) list"
  write_fault :: "string \<Rightarrow> exn option"
  db_fault :: "((string \<times> string) \<times> item list) list \<Rightarrow> string \<Rightarrow> string \<Rightarrow> item list \<Rightarrow> exn option"
  every_do :: "int \<Rightarrow> time_unit \<Rightarrow> nat \<Rightarrow> ending"
  triggers :: "trigger list"

definition logger :: "level \<Rightarrow> logmsg \<Rightarrow> world \<Rightarrow> world" where
  "logger lv m w = w\<lparr>logs := logs w @ [(lv, m)]\<rparr>"

definition time_sleep :: "nat \<Rightarrow> world \<Rightarrow> world" where
  "time_sleep d w = w\<lparr>now := now w + d\<rparr>"

text \<open>\<^verbatim>\<open>datetime.now()\<close>: the time the environment lets pass first, then the reading.\<close>

definition datetime_now :: "world \<Rightarrow> nat \<times> world" where
  "datetime_now w =
     (case pending w of
        [] \<Rightarrow> (now w, w)
      | d # ds \<Rightarrow> (now w + d, w\<lparr>now := now w + d, pending := ds\<rparr>))"

text \<open>\<^verbatim>\<open>session.get(url, timeout=...)\<close>: the next outcome the network has in store.\<close>

definition session_get :: "string \<Rightarrow> world \<Rightarrow> (exn + response) \<times> world" where
  "session_get u w =
     (case http w of
        [] \<Rightarrow> (Inl (OtherException ''ConnectionError''), w)
      | r # rs \<Rightarrow> (r, w\<lparr>http := rs\<rparr>))"

section \<open>StaticScraper.scrape\<close>

text \<open>The value taken from a matched element: lines 105 to 110.\<close>

definition static_value :: "tag \<Rightarrow> string option" where
  "static_value element =
     (if truthy (tag_get element ''href'') then tag_get element ''href''
      else if truthy (tag_get element ''src'') then tag_get element ''src''
      else Some (get_text_strip element))"

text \<open>
  The inner loop over \<^verbatim>\<open>self.config.selectors.items()\<close> for one container. A found element
  is always true in \<^verbatim>\<open>if element:\<close> (a BeautifulSoup tag is), so the \<^verbatim>\<open>else\<close> is the case of no
  match. An exception of \<^verbatim>\<open>select_one\<close> is not handled here and leaves the loop.
\<close>

fun static_fields :: "string \<Rightarrow> tag \<Rightarrow> (string \<times> string) list \<Rightarrow> item \<Rightarrow> exn + item" where
  "static_fields container_selector container [] item = Inr item"
| "static_fields container_selector container ((field, selector) # rest) item =
     (if field = container_selector then static_fields container_selector container rest item
      else
        (case select_one container selector of
           Inl e \<Rightarrow> Inl e
         | Inr None \<Rightarrow>
             static_fields container_selector container rest (AList.update field None item)
         | Inr (Some element) \<Rightarrow>
             static_fields container_selector container rest
               (AList.update field (static_value element) item)))"

text \<open>The outer loop over the containers; \<open>data\<close> is the list built so far.\<close>

fun static_containers ::
  "ScrapeConfig \<Rightarrow> string \<Rightarrow> tag list \<Rightarrow> item list \<Rightarrow> world \<Rightarrow> (exn + item list) \<times> world" where
  "static_containers cfg container_selector [] data w = (Inr data, w)"
| "static_containers cfg container_selector (container # rest) data w =
     (case datetime_now w of
        (t, w1) \<Rightarrow>
          (case static_fields container_selector container (selectors cfg)
                  [(''scraped_at'', Some (isoformat t)), (''url'', Some (url cfg))] of
             Inl e \<Rightarrow> (Inl e, w1)
           | Inr item \<Rightarrow> static_containers cfg container_selector rest (data @ [item]) w1))"

definition static_scrape :: "ScrapeConfig \<Rightarrow> world \<Rightarrow> (exn + item list) \<times> world" where
  "static_scrape cfg w0 =
     (let w1 = logger INFO (StartingStatic (url cfg)) w0 in
      case session_get (url cfg) w1 of
        (Inl e, w2) \<Rightarrow> (Inl e, w2)
      | (Inr resp, w2) \<Rightarrow>
          (case raise_for_status resp of
             Inl e \<Rightarrow> (Inl e, w2)
           | Inr _ \<Rightarrow>
               (case selectors cfg of
                  [] \<Rightarrow> (Inl IndexError, w2)
                | (container_selector, _) # _ \<Rightarrow>
                    (case select (content resp) container_selector of
                       Inl e \<Rightarrow> (Inl e, w2)
                     | Inr containers \<Rightarrow>
                         (case static_containers cfg container_selector containers [] w2 of
                            (Inl e, w3) \<Rightarrow> (Inl e, w3)
                          | (Inr data, w3) \<Rightarrow>
                              (Inr data, logger INFO (StaticCompleted (length data)) w3))))))"

section \<open>DynamicScraper.scrape\<close>

text \<open>
  \<^verbatim>\<open>_setup_driver\<close>: \<^verbatim>\<open>webdriver.Chrome\<close> either raises, leaving \<^verbatim>\<open>self.driver\<close> as it was, or
  gives the session that \<^verbatim>\<open>self.driver\<close> then holds.
\<close>

definition setup_driver :: "world \<Rightarrow> (exn + browser) \<times> world" where
  "setup_driver w =
     (case chrome w of
        [] \<Rightarrow> (Inl (OtherException ''WebDriverException''), w)
      | Inl e # bs \<Rightarrow> (Inl e, w\<lparr>chrome := bs\<rparr>)
      | Inr b # bs \<Rightarrow> (Inr b, w\<lparr>chrome := bs, driver := Some b\<rparr>))"

text \<open>
  The \<^verbatim>\<open>finally\<close> clause: \<^verbatim>\<open>if self.driver: self.driver.quit()\<close>; \<open>quits\<close> counts the calls,
  and \<^verbatim>\<open>quit\<close> itself is taken not to raise.
\<close>

definition driver_quit :: "world \<Rightarrow> world" where
  "driver_quit w = (case driver w of None \<Rightarrow> w | Some _ \<Rightarrow> w\<lparr>quits := quits w + 1\<rparr>)"

text \<open>The value taken from a found element: lines 179 to 184, each call to the browser may raise.\<close>

definition dynamic_value :: "web_element \<Rightarrow> exn + string option" where
  "dynamic_value element =
     (case get_attribute element ''href'' of
        Inl e \<Rightarrow> Inl e
      | Inr h \<Rightarrow>
          if truthy h then get_attribute element ''href''
          else
            (case get_attribute element ''src'' of
               Inl e \<Rightarrow> Inl e
             | Inr s \<Rightarrow>
                 if truthy s then get_attribute element ''src''
                 else (case el_text element of Inl e \<Rightarrow> Inl e | Inr t \<Rightarrow> Inr (Some (strip t)))))"

text \<open>The \<^verbatim>\<open>try\<close> of lines 175 to 186: any exception gives \<^verbatim>\<open>None\<close>.\<close>

definition dynamic_field :: "web_element \<Rightarrow> string \<Rightarrow> string option" where
  "dynamic_field container selector =
     (case find_element container selector of
        Inl _ \<Rightarrow> None
      | Inr element \<Rightarrow> (case dynamic_value element of Inl _ \<Rightarrow> None | Inr v \<Rightarrow> v))"

fun dynamic_fields :: "string \<Rightarrow> web_element \<Rightarrow> (string \<times> string) list \<Rightarrow> item \<Rightarrow> item" where
  "dynamic_fields container_selector container [] item = item"
| "dynamic_fields container_selector container ((field, selector) # rest) item =
     (if field = container_selector then dynamic_fields container_selector container rest item
      else dynamic_fields container_selector container rest
             (AList.update field (dynamic_field container selector) item))"

fun dynamic_containers ::
  "ScrapeConfig \<Rightarrow> string \<Rightarrow> web_element list \<Rightarrow> item list \<Rightarrow> world \<Rightarrow> item list \<times> world" where
  "dynamic_containers cfg container_selector [] data w = (data, w)"
| "dynamic_containers cfg container_selector (container # rest) data w =
     (case datetime_now w of
        (t, w1) \<Rightarrow>
          dynamic_containers cfg container_selector rest
            (data @ [dynamic_fields container_selector container (selectors cfg)
                       [(''scraped_at'', Some (isoformat t)), (''url'', Some (url cfg))]]) w1)"

text \<open>The body of the \<^verbatim>\<open>try\<close> of \<^verbatim>\<open>DynamicScraper.scrape\<close>, lines 147 to 191.\<close>

definition dynamic_try :: "ScrapeConfig \<Rightarrow> world \<Rightarrow> (exn + item list) \<times> world" where
  "dynamic_try cfg w1 =
     (case setup_driver w1 of
        (Inl e, w2) \<Rightarrow> (Inl e, w2)
      | (Inr b, w2) \<Rightarrow>
          (case navigate b (url cfg) of
             Some e \<Rightarrow> (Inl e, w2)
           | None \<Rightarrow>
               (case (if truthy (wait_for_element cfg)
                      then wait_until b (the (wait_for_element cfg)) else None) of
                  Some e \<Rightarrow> (Inl e, w2)
                | None \<Rightarrow>
                    (let w3 = time_sleep 2 w2 in
                     case selectors cfg of
                       [] \<Rightarrow> (Inl IndexError, w3)
                     | (container_selector, _) # _ \<Rightarrow>
                         (case page_elements b container_selector of
                            Inl e \<Rightarrow> (Inl e, w3)
                          | Inr containers \<Rightarrow>
                              (case dynamic_containers cfg container_selector containers [] w3 of
                                 (data, w4) \<Rightarrow>
                                   (Inr data, logger INFO (DynamicCompleted (length data)) w4)))))))"

definition dynamic_scrape :: "ScrapeConfig \<Rightarrow> world \<Rightarrow> (exn + item list) \<times> world" where
  "dynamic_scrape cfg w0 =
     (case dynamic_try cfg (logger INFO (StartingDynamic (url cfg)) w0) of
        (r, w) \<Rightarrow> (r, driver_quit w))"

section \<open>BaseScraper.retry_scrape\<close>

text \<open>
  The loop \<^verbatim>\<open>for attempt in range(self.config.max_retries)\<close> over the list of the range.
  \<open>scrape\<close> is the abstract method. The result is \<open>Inr (Some data)\<close> for \<^verbatim>\<open>return self.scrape()\<close>,
  \<open>Inl e\<close> for the \<^verbatim>\<open>raise\<close> of the last attempt, and \<open>Inr None\<close> when the range is empty and
  the function falls off its end. \<open>starts\<close> is a history variable, not part of the program: the
  clock at every entry of \<^verbatim>\<open>self.scrape()\<close>, in order.
\<close>

fun retry_attempts ::
  "int \<Rightarrow> (world \<Rightarrow> (exn + 'a) \<times> world) \<Rightarrow> nat list \<Rightarrow> nat list \<Rightarrow> world
     \<Rightarrow> ((exn + 'a option) \<times> nat list) \<times> world" where
  "retry_attempts mr scrape [] starts w = ((Inr None, starts), w)"
| "retry_attempts mr scrape (attempt # rest) starts w =
     (case scrape w of
        (Inr data, w1) \<Rightarrow> ((Inr (Some data), starts @ [now w]), w1)
      | (Inl e, w1) \<Rightarrow>
          (let w2 = logger WARNING (AttemptFailed (attempt + 1) e) w1 in
           if int attempt < mr - 1
           then retry_attempts mr scrape rest (starts @ [now w]) (time_sleep (2 ^ attempt) w2)
           else ((Inl e, starts @ [now w]), w2)))"

definition retry_scrape_traced ::
  "ScrapeConfig \<Rightarrow> (world \<Rightarrow> (exn + 'a) \<times> world) \<Rightarrow> world \<Rightarrow> ((exn + 'a option) \<times> nat list) \<times> world" where
  "retry_scrape_traced cfg scrape w =
     retry_attempts (max_retries cfg) scrape [0..<nat (max_retries cfg)] [] w"

definition retry_scrape ::
  "ScrapeConfig \<Rightarrow> (world \<Rightarrow> (exn + 'a) \<times> world) \<Rightarrow> world \<Rightarrow> (exn + 'a option) \<times> world" where
  "retry_scrape cfg scrape w =
     (case retry_scrape_traced cfg scrape w of ((r, _), w') \<Rightarrow> (r, w'))"

text \<open>The clock at the start of each attempt of a run.\<close>

definition attempt_starts ::
  "ScrapeConfig \<Rightarrow> (world \<Rightarrow> (exn + 'a) \<times> world) \<Rightarrow> world \<Rightarrow> nat list" where
  "attempt_starts cfg scrape w = snd (fst (retry_scrape_traced cfg scrape w))"

section \<open>DataExporter\<close>

text \<open>\<^verbatim>\<open>not data\<close>: \<^verbatim>\<open>None\<close> and the empty list are false.\<close>

definition no_data :: "item list option \<Rightarrow> bool" where
  "no_data data = (case data of None \<Rightarrow> True | Some rows \<Rightarrow> rows = [])"

definition to_csv :: "item list option \<Rightarrow> string \<Rightarrow> world \<Rightarrow> (exn + unit) \<times> world" where
  "to_csv data filename w =
     (if no_data data then (Inr (), logger WARNING NoDataCsv w)
      else
        (case write_fault w filename of
           Some e \<Rightarrow> (Inl e, w)
         | None \<Rightarrow>
             (Inr (), logger INFO (ExportedCsv filename)
                        (w\<lparr>files := AList.update filename (CsvFile (the data)) (files w)\<rparr>))))"

definition to_json :: "item list option \<Rightarrow> string \<Rightarrow> world \<Rightarrow> (exn + unit) \<times> world" where
  "to_json data filename w =
     (case write_fault w filename of
        Some e \<Rightarrow> (Inl e, w)
      | None \<Rightarrow>
          (Inr (), logger INFO (ExportedJson filename)
                     (w\<lparr>files := AList.update filename (JsonFile data) (files w)\<rparr>)))"

text \<open>
  \<^verbatim>\<open>to_database\<close>: unless the database or the table refuses the batch, the rows go after those
  the table already has (\<^verbatim>\<open>to_sql(..., if_exists='append')\<close>).
\<close>

definition to_database ::
  "item list option \<Rightarrow> string \<Rightarrow> string \<Rightarrow> world \<Rightarrow> (exn + unit) \<times> world" where
  "to_database data db_name table_name w =
     (if no_data data then (Inr (), logger WARNING NoDataDb w)
      else
        (case db_fault w (tables w) db_name table_name (the data) of
           Some e \<Rightarrow> (Inl e, w)
         | None \<Rightarrow>
             (Inr (), logger INFO (ExportedDb db_name table_name)
                (w\<lparr>tables :=
                    AList.update (db_name, table_name)
                      ((case map_of (tables w) (db_name, table_name) of
                          None \<Rightarrow> [] | Some old \<Rightarrow> old) @ the data)
                      (tables w)\<rparr>))))"

section \<open>WebScraperScheduler\<close>

record scheduler =
  jobs :: "(string \<times> ScrapeConfig) list"
  running :: bool

definition init_scheduler :: scheduler where
  "init_scheduler = \<lparr>jobs = [], running = False\<rparr>"

definition period :: "int \<Rightarrow> time_unit \<Rightarrow> int" where
  "period n u = n * (case u of Minutes \<Rightarrow> 60 | Hours \<Rightarrow> 3600 | Days \<Rightarrow> 86400)"

text \<open>
  \<^verbatim>\<open>schedule.every(n).<unit>.do(self._run_job, job_name)\<close>. When the library returns, it has
  appended one more job to its list, due one period from now; when it raises or does not
  return, the list is as before.
\<close>

definition schedule_do :: "int \<Rightarrow> time_unit \<Rightarrow> string \<Rightarrow> world \<Rightarrow> ending \<times> world" where
  "schedule_do n u job_name w =
     (case every_do w n u (now w) of
        Returned \<Rightarrow>
          (Returned,
           w\<lparr>triggers := triggers w @
               [\<lparr>every = n, unit = u, job_arg = job_name, next_run = int (now w) + period n u\<rparr>]\<rparr>)
      | Raised e \<Rightarrow> (Raised e, w)
      | NoReturn \<Rightarrow> (NoReturn, w))"

text \<open>
  \<^verbatim>\<open>add_job\<close>. The entry is stored first; an exception of \<^verbatim>\<open>int(...)\<close> or of the library leaves
  the function after that, before the last line logs. The result carries the scheduler and the
  world as the call leaves them (or, when the library does not return, as they then stay).
\<close>

definition add_job :: "scheduler \<Rightarrow> ScrapeConfig \<Rightarrow> world \<Rightarrow> ending \<times> scheduler \<times> world" where
  "add_job s config w =
     (let s1 = s\<lparr>jobs := AList.update (name config) config (jobs s)\<rparr>;
          iv = schedule_interval config;
          added = logger INFO (JobAdded (name config) iv)
      in
        if endswith iv ''min'' then
          (case py_int (drop_last 3 iv) of
             Inl e \<Rightarrow> (Raised e, s1, w)
           | Inr minutes \<Rightarrow>
               (case schedule_do minutes Minutes (name config) w of
                  (r, w1) \<Rightarrow> (r, s1, if r = Returned then added w1 else w1)))
        else if endswith iv ''hour'' then
          (case py_int (drop_last 4 iv) of
             Inl e \<Rightarrow> (Raised e, s1, w)
           | Inr hours \<Rightarrow>
               (case schedule_do hours Hours (name config) w of
                  (r, w1) \<Rightarrow> (r, s1, if r = Returned then added w1 else w1)))
        else if endswith iv ''day'' then
          (case py_int (drop_last 3 iv) of
             Inl e \<Rightarrow> (Raised e, s1, w)
           | Inr days \<Rightarrow>
               (case schedule_do days Days (name config) w of
                  (r, w1) \<Rightarrow> (r, s1, if r = Returned then added w1 else w1)))
        else (Returned, s1, added (logger ERROR (InvalidInterval iv) w)))"

text \<open>The \<^verbatim>\<open>try\<close> block of \<^verbatim>\<open>_run_job\<close>, lines 265 to 287.\<close>

definition scraper_for :: "ScrapeConfig \<Rightarrow> world \<Rightarrow> (world \<Rightarrow> (exn + item list) \<times> world) \<times> world" where
  "scraper_for config w =
     (if scrape_type config = ''static'' then (static_scrape config, w)
      else (dynamic_scrape config, w\<lparr>driver := None\<rparr>))"

definition export :: "ScrapeConfig \<Rightarrow> string \<Rightarrow> item list option \<Rightarrow> world \<Rightarrow> (exn + unit) \<times> world" where
  "export config job_name data w0 =
     (case datetime_now w0 of
        (t, w) \<Rightarrow>
          if output_format config = ''csv'' then
            to_csv data (job_name @ ''_'' @ strftime t @ ''.csv'') w
          else if output_format config = ''json'' then
            to_json data (job_name @ ''_'' @ strftime t @ ''.json'') w
          else if output_format config = ''database'' then
            to_database data (job_name @ ''.db'') job_name w
          else (Inr (), w))"

definition run_job_try :: "ScrapeConfig \<Rightarrow> string \<Rightarrow> world \<Rightarrow> (exn + unit) \<times> world" where
  "run_job_try config job_name w0 =
     (case scraper_for config w0 of
        (scrape, w1) \<Rightarrow>
          (case retry_scrape config scrape w1 of
             (Inl e, w2) \<Rightarrow> (Inl e, w2)
           | (Inr data, w2) \<Rightarrow>
               (case export config job_name data w2 of
                  (Inl e, w3) \<Rightarrow> (Inl e, w3)
                | (Inr _, w3) \<Rightarrow> (Inr (), logger INFO (JobCompleted job_name) w3))))"

text \<open>
  \<^verbatim>\<open>_run_job\<close> (an Isabelle name cannot start with an underscore). \<^verbatim>\<open>self.jobs[job_name]\<close> is
  outside the \<^verbatim>\<open>try\<close>: a missing key raises KeyError to the caller.
\<close>

definition run_job :: "scheduler \<Rightarrow> string \<Rightarrow> world \<Rightarrow> (exn + unit) \<times> world" where
  "run_job s job_name w =
     (case map_of (jobs s) job_name of
        None \<Rightarrow> (Inl (KeyError job_name), w)
      | Some config \<Rightarrow>
          (case run_job_try config job_name (logger INFO (RunningJob job_name) w) of
             (Inl e, w') \<Rightarrow> (Inr (), logger ERROR (JobFailed job_name e) w')
           | (Inr _, w') \<Rightarrow> (Inr (), w')))"

definition run_job_now :: "scheduler \<Rightarrow> string \<Rightarrow> world \<Rightarrow> (exn + unit) \<times> world" where
  "run_job_now s job_name w =
     (if job_name \<in> fst ` set (jobs s) then run_job s job_name w
      else (Inr (), logger ERROR (JobNotFound job_name) w))"

text \<open>
  \<^verbatim>\<open>schedule.run_pending()\<close>: the jobs of the library whose time has come, by ascending
  \<open>next_run\<close>; each runs its function and is scheduled again one period from now. An exception
  of the function leaves \<^verbatim>\<open>run_pending\<close>.
\<close>

fun run_due :: "scheduler \<Rightarrow> (nat \<times> trigger) list \<Rightarrow> world \<Rightarrow> (exn + unit) \<times> world" where
  "run_due s [] w = (Inr (), w)"
| "run_due s ((i, t) # rest) w =
     (case run_job s (job_arg t) w of
        (Inl e, w') \<Rightarrow> (Inl e, w')
      | (Inr _, w') \<Rightarrow>
          run_due s rest
            (w'\<lparr>triggers :=
                 (triggers w')[i := t\<lparr>next_run := int (now w') + period (every t) (unit t)\<rparr>]\<rparr>))"

definition due :: "world \<Rightarrow> (nat \<times> trigger) list" where
  "due w =
     sort_key (\<lambda>p. next_run (snd p))
       (filter (\<lambda>p. next_run (snd p) \<le> int (now w)) (enumerate 0 (triggers w)))"

definition run_pending :: "scheduler \<Rightarrow> world \<Rightarrow> (exn + unit) \<times> world" where
  "run_pending s w = run_due s (due w) w"

text \<open>
  \<^verbatim>\<open>start_scheduler\<close>: \<^verbatim>\<open>while self.running: schedule.run_pending(); time.sleep(1)\<close>. Nothing in
  the loop clears \<^verbatim>\<open>self.running\<close>, so the loop is given the number of rounds to observe:
  \<open>StillRunning\<close> after that many rounds, \<open>Stopped\<close> when the flag was found false, \<open>Crashed e\<close>
  when an exception left the loop.
\<close>

datatype loop_end = Stopped | StillRunning | Crashed exn

fun scheduler_loop :: "nat \<Rightarrow> scheduler \<Rightarrow> world \<Rightarrow> loop_end \<times> world" where
  "scheduler_loop 0 s w = (if running s then StillRunning else Stopped, w)"
| "scheduler_loop (Suc rounds) s w =
     (if running s then
        (case run_pending s w of
           (Inl e, w') \<Rightarrow> (Crashed e, w')
         | (Inr _, w') \<Rightarrow> scheduler_loop rounds s (time_sleep 1 w'))
      else (Stopped, w))"

definition start_scheduler :: "nat \<Rightarrow> scheduler \<Rightarrow> world \<Rightarrow> loop_end \<times> scheduler \<times> world" where
  "start_scheduler rounds s w =
     (let s1 = s\<lparr>running := True\<rparr> in
      case scheduler_loop rounds s1 (logger INFO SchedulerStarted w) of
        (r, w') \<Rightarrow> (r, s1, w'))"

definition stop_scheduler :: "scheduler \<Rightarrow> world \<Rightarrow> scheduler \<times> world" where
  "stop_scheduler s w = (s\<lparr>running := False\<rparr>, logger INFO SchedulerStopped w)"

section \<open>Notions used to state the properties\<close>

text \<open>
  The world in which attempt \<open>k\<close> (counted from 0) of \<^verbatim>\<open>retry_scrape\<close> begins, when every
  attempt before it has failed: after a failed attempt the warning is logged and the loop
  sleeps.
\<close>

fun before_attempt :: "(world \<Rightarrow> (exn + 'a) \<times> world) \<Rightarrow> nat \<Rightarrow> world \<Rightarrow> world" where
  "before_attempt scrape 0 w = w"
| "before_attempt scrape (Suc k) w =
     (case scrape (before_attempt scrape k w) of
        (Inl e, w1) \<Rightarrow> time_sleep (2 ^ k) (logger WARNING (AttemptFailed (k + 1) e) w1)
      | (Inr _, w1) \<Rightarrow> w1)"

text \<open>
  The world in which attempt \<open>k\<close> leaves the body of the loop when it is the last one made: as
  the scrape left it, with the warning logged if the scrape failed, and without any sleep.
\<close>

definition after_last_attempt :: "(world \<Rightarrow> (exn + 'a) \<times> world) \<Rightarrow> nat \<Rightarrow> world \<Rightarrow> world" where
  "after_last_attempt scrape k w =
     (case scrape (before_attempt scrape k w) of
        (Inl e, w1) \<Rightarrow> logger WARNING (AttemptFailed (k + 1) e) w1
      | (Inr _, w1) \<Rightarrow> w1)"

text \<open>The \<open>i\<close>-th reading of the clock taken from world \<open>w\<close> on (counted from 0).\<close>

fun after_readings :: "nat \<Rightarrow> world \<Rightarrow> world" where
  "after_readings 0 w = w"
| "after_readings (Suc i) w = after_readings i (snd (datetime_now w))"

definition reading :: "nat \<Rightarrow> world \<Rightarrow> nat" where
  "reading i w = fst (datetime_now (after_readings i w))"

text \<open>The item as lines 93 to 95 leave it, before any field is resolved.\<close>

definition stamps :: "ScrapeConfig \<Rightarrow> nat \<Rightarrow> item" where
  "stamps cfg t = [(''scraped_at'', Some (isoformat t)), (''url'', Some (url cfg))]"

text \<open>Every job of the \<^verbatim>\<open>schedule\<close> library calls \<^verbatim>\<open>_run_job\<close> with a name that is in \<^verbatim>\<open>self.jobs\<close>.\<close>

definition registered :: "scheduler \<Rightarrow> world \<Rightarrow> bool" where
  "registered s w = list_all (\<lambda>t. job_arg t \<in> fst ` set (jobs s)) (triggers w)"

section \<open>Example inputs\<close>

text \<open>
  The answers of version 1.2 of the \<^verbatim>\<open>schedule\<close> library, on a clock whose zero lies \<open>horizon\<close>
  time units before the last date of the calendar: the period 0 never returns; a negative
  period walks back to the first date of the calendar and raises OverflowError there; a period
  of 1000000000 days or more is no \<^verbatim>\<open>timedelta\<close>, and a next run beyond the calendar is no date:
  OverflowError as well.
\<close>

definition schedule_1_2 :: "nat \<Rightarrow> int \<Rightarrow> time_unit \<Rightarrow> nat \<Rightarrow> ending" where
  "schedule_1_2 horizon n u t =
     (if n = 0 then NoReturn
      else if n < 0 \<or> 1000000000 * 86400 \<le> period n u \<or> int horizon < int t + period n u
      then Raised OverflowError
      else Returned)"

definition world0 :: world where
  "world0 = \<lparr>now = 0, pending = [], logs = [], http = [], chrome = [], driver = None, quits = 0,
     files = [], tables = [], write_fault = (\<lambda>_. None), db_fault = (\<lambda>_ _ _ _. None),
     every_do = schedule_1_2 250000000000, triggers = []\<rparr>"

text \<open>The two configurations of \<^verbatim>\<open>create_example_configs\<close>.\<close>

definition news_config :: ScrapeConfig where
  "news_config = \<lparr>name = ''news_scraper'', url = ''https://example-news.com'',
     scrape_type = ''static'',
     selectors = [(''article'', ''article.news-item''), (''title'', ''h2.title''),
                  (''summary'', ''p.summary''), (''link'', ''a.read-more''), (''date'', ''span.date'')],
     schedule_interval = ''1hour'', output_format = ''csv'', max_retries = 3, timeout = 30,
     headers = Some [(''User-Agent'', ''Mozilla/5.0 (compatible; WebScraper/1.0)'')],
     wait_for_element = None\<rparr>"

definition product_config :: ScrapeConfig where
  "product_config = \<lparr>name = ''product_scraper'', url = ''https://example-store.com/products'',
     scrape_type = ''dynamic'',
     selectors = [(''product'', ''div.product-card''), (''name'', ''h3.product-name''),
                  (''price'', ''span.price''), (''image'', ''img.product-image''),
                  (''rating'', ''div.rating'')],
     schedule_interval = ''30min'', output_format = ''database'', max_retries = 3, timeout = 30,
     headers = None, wait_for_element = Some ''div.product-card''\<rparr>"

text \<open>
  A page with two \<^verbatim>\<open>article\<close> elements. The selector engine of every element rejects the
  malformed selector \<^verbatim>\<open>h2[\<close>.
\<close>

definition css_of :: "(string \<times> tag list) list \<Rightarrow> string \<Rightarrow> exn + tag list" where
  "css_of table sel =
     (if sel = ''h2['' then Inl (OtherException ''SelectorSyntaxError'')
      else (case map_of table sel of None \<Rightarrow> Inr [] | Some ts \<Rightarrow> Inr ts))"

definition leaf :: "(string \<times> string) list \<Rightarrow> string list \<Rightarrow> tag" where
  "leaf as ss = Tag as ss (css_of [])"

definition article1 :: tag where
  "article1 = Tag [] ['' First '', ''more'']
     (css_of [(''h2.title'', [leaf [] ['' First '']]),
              (''a.read-more'', [leaf [(''href'', ''/first'')] [''more'']]),
              (''a'', [leaf [(''href'', ''/first'')] [''more'']])])"

definition article2 :: tag where
  "article2 = Tag [] [''Second''] (css_of [(''h2.title'', [leaf [] [''Second'']])])"

definition news_page :: tag where
  "news_page = Tag [] ['' First '', ''more'', ''Second'']
     (css_of [(''article'', [article1, article2]),
              (''h2.title'', [leaf [] ['' First ''], leaf [] [''Second'']])])"

definition news_world :: world where
  "news_world = world0\<lparr>pending := [3, 4], http := [Inr \<lparr>status_code = 200, content = news_page\<rparr>]\<rparr>"

definition news_items :: "item list" where
  "news_items = projr (fst (static_scrape news_config news_world))"

text \<open>A server that refuses the connection, then answers 503, then serves the page.\<close>

definition flaky_world :: world where
  "flaky_world = world0\<lparr>http :=
     [Inl (OtherException ''ConnectionError''),
      Inr \<lparr>status_code = 503, content = news_page\<rparr>,
      Inr \<lparr>status_code = 200, content = news_page\<rparr>]\<rparr>"

definition flaky_starts :: "nat list" where
  "flaky_starts = attempt_starts news_config (static_scrape news_config) flaky_world"

text \<open>Elements with an empty \<^verbatim>\<open>href\<close>, and with text in several nodes.\<close>

definition empty_href_link :: tag where
  "empty_href_link = leaf [(''href'', [])] [''Home'']"

definition split_heading :: tag where
  "split_heading = leaf [] ['' Breaking '', ''News'', '' '']"

text \<open>A price followed by a no-break space (U+00A0), as \<^verbatim>\<open>&nbsp;\<close> leaves it in the text.\<close>

definition nbsp_price :: tag where
  "nbsp_price = leaf [] [''12 EUR'' @ [CHR 0xA0]]"

text \<open>Configurations with a malformed field selector, and with a field named \<^verbatim>\<open>url\<close>.\<close>

definition bad_selector_config :: ScrapeConfig where
  "bad_selector_config =
     news_config\<lparr>selectors := [(''article'', ''article.news-item''), (''title'', ''h2['')]\<rparr>"

definition url_field_config :: ScrapeConfig where
  "url_field_config =
     news_config\<lparr>selectors := [(''article'', ''article.news-item''), (''url'', ''a'')]\<rparr>"

text \<open>
  A sitemap with one \<^verbatim>\<open>url\<close> element, and a configuration whose first key, the container
  selector, is \<^verbatim>\<open>url\<close>.
\<close>

definition sitemap_page :: tag where
  "sitemap_page = Tag [] [''/first'']
     (css_of [(''url'', [Tag [] [''/first''] (css_of [(''loc'', [leaf [] [''/first'']])])])])"

definition sitemap_config :: ScrapeConfig where
  "sitemap_config = news_config\<lparr>selectors := [(''url'', ''urlset > url''), (''loc'', ''loc'')]\<rparr>"

definition sitemap_world :: world where
  "sitemap_world = world0\<lparr>pending := [5], http := [Inr \<lparr>status_code = 200, content = sitemap_page\<rparr>]\<rparr>"

text \<open>A rendered page with two product cards; the second has no image.\<close>

definition plain_element :: "(string \<times> string) list \<Rightarrow> string \<Rightarrow> web_element" where
  "plain_element as t = WebElement (\<lambda>a. Inr (map_of as a)) (Inr t) (\<lambda>_. Inr [])"

definition card1 :: web_element where
  "card1 = WebElement (\<lambda>_. Inr None) (Inr ''Lamp 12'')
     (\<lambda>sel. if sel = ''h3.product-name'' then Inr [plain_element [] '' Lamp '']
            else if sel = ''img.product-image'' then Inr [plain_element [(''src'', ''/lamp.png'')] []]
            else Inr [])"

definition card2 :: web_element where
  "card2 = WebElement (\<lambda>_. Inr None) (Inr ''Desk'')
     (\<lambda>sel. if sel = ''h3.product-name'' then Inr [plain_element [] ''Desk'']
            else if sel = ''span.price'' then Inl (OtherException ''StaleElementReferenceException'')
            else Inr [])"

definition shop_browser :: browser where
  "shop_browser = \<lparr>navigate = (\<lambda>_. None), wait_until = (\<lambda>_. None),
     page_elements = (\<lambda>sel. if sel = ''product'' then Inr [card1, card2] else Inr [])\<rparr>"

definition shop_world :: world where
  "shop_world = world0\<lparr>pending := [1, 1], chrome := [Inr shop_browser]\<rparr>"

text \<open>
  Registrations, as in \<^verbatim>\<open>main\<close>: the news job, then the product job; and a second configuration
  under the name of the news job.
\<close>

definition news_registered :: "scheduler \<times> world" where
  "news_registered = snd (add_job init_scheduler news_config world0)"

definition both_registered :: "scheduler \<times> world" where
  "both_registered = snd (add_job (fst news_registered) product_config (snd news_registered))"

definition other_news_config :: ScrapeConfig where
  "other_news_config = news_config\<lparr>url := ''https://other.example'', schedule_interval := ''2day''\<rparr>"

text \<open>Intervals the library does not accept: a period of 0, and one beyond \<^verbatim>\<open>timedelta\<close>.\<close>

definition zero_config :: ScrapeConfig where
  "zero_config = news_config\<lparr>schedule_interval := ''0min''\<rparr>"

definition huge_config :: ScrapeConfig where
  "huge_config = news_config\<lparr>schedule_interval := ''9999999999day''\<rparr>"

definition seconds_config :: ScrapeConfig where
  "seconds_config = news_config\<lparr>schedule_interval := ''5sec''\<rparr>"

text \<open>A server that serves the page three times.\<close>

definition steady_world :: world where
  "steady_world = world0\<lparr>http :=
     [Inr \<lparr>status_code = 200, content = news_page\<rparr>,
      Inr \<lparr>status_code = 200, content = news_page\<rparr>,
      Inr \<lparr>status_code = 200, content = news_page\<rparr>]\<rparr>"

text \<open>The news job registered, the page served once, and every file refused by the system.\<close>

definition readonly_world :: world where
  "readonly_world = (snd news_registered)\<lparr>
     http := [Inr \<lparr>status_code = 200, content = news_page\<rparr>],
     write_fault := (\<lambda>_. Some (OtherException ''PermissionError''))\<rparr>"

section \<open>Properties of the retry loop\<close>

lemma retry_attempts_first_success:
  assumes "\<forall>j. a \<le> j \<and> j < k \<longrightarrow> isl (fst (scrape (before_attempt scrape j w0)))"
      and "fst (scrape (before_attempt scrape k w0)) = Inr d"
      and "a \<le> k" and "k < n"
  shows "retry_attempts (int n) scrape [a..<n] st (before_attempt scrape a w0)
         = ((Inr (Some d), st @ map (\<lambda>j. now (before_attempt scrape j w0)) [a..<Suc k]),
            snd (scrape (before_attempt scrape k w0)))"
  using assms
proof (induction "k - a" arbitrary: a st)
  case 0
  then have ak: "a = k" by simp
  have l: "[k..<n] = k # [Suc k..<n]" using \<open>k < n\<close> by (simp add: upt_conv_Cons)
  obtain w1 where s: "scrape (before_attempt scrape k w0) = (Inr d, w1)"
    using 0(3) by (cases "scrape (before_attempt scrape k w0)") auto
  show ?case unfolding ak l by (simp add: s)
next
  case (Suc m)
  then have lt: "a < k" by simp
  then have an: "a < n" using Suc.prems by simp
  have l: "[a..<n] = a # [Suc a..<n]" using an by (simp add: upt_conv_Cons)
  have "isl (fst (scrape (before_attempt scrape a w0)))" using Suc.prems(1) lt by simp
  then obtain e w1 where s: "scrape (before_attempt scrape a w0) = (Inl e, w1)"
    by (cases "scrape (before_attempt scrape a w0)") (auto simp: isl_def)
  have cond: "int a < int n - 1" using lt Suc.prems by simp
  have ih: "retry_attempts (int n) scrape [Suc a..<n] (st @ [now (before_attempt scrape a w0)])
              (before_attempt scrape (Suc a) w0)
     = ((Inr (Some d), (st @ [now (before_attempt scrape a w0)]) @
                         map (\<lambda>j. now (before_attempt scrape j w0)) [Suc a..<Suc k]),
        snd (scrape (before_attempt scrape k w0)))"
    using Suc.hyps(1)[of "Suc a"] Suc.hyps(2) Suc.prems lt by simp
  have m: "[a..<Suc k] = a # [Suc a..<Suc k]" using lt by (simp add: upt_conv_Cons)
  show ?case
    unfolding l using cond ih
    by (simp add: s m Let_def del: before_attempt.simps upt_Suc) (simp add: s)
qed

lemma retry_attempts_all_fail:
  assumes "\<forall>j. a \<le> j \<and> j < n \<longrightarrow> isl (fst (scrape (before_attempt scrape j w0)))"
      and "a < n"
  shows "retry_attempts (int n) scrape [a..<n] st (before_attempt scrape a w0)
         = ((Inl (projl (fst (scrape (before_attempt scrape (n - 1) w0)))),
             st @ map (\<lambda>j. now (before_attempt scrape j w0)) [a..<n]),
            logger WARNING (AttemptFailed n (projl (fst (scrape (before_attempt scrape (n - 1) w0)))))
              (snd (scrape (before_attempt scrape (n - 1) w0))))"
  using assms
proof (induction "n - Suc a" arbitrary: a st)
  case 0
  then have an: "n = Suc a" by simp
  have "isl (fst (scrape (before_attempt scrape a w0)))" using 0 by simp
  then obtain e w1 where s: "scrape (before_attempt scrape a w0) = (Inl e, w1)"
    by (cases "scrape (before_attempt scrape a w0)") (auto simp: isl_def)
  show ?case unfolding an by (simp add: s Let_def)
next
  case (Suc m)
  then have an: "Suc a < n" by simp
  have l: "[a..<n] = a # [Suc a..<n]" using an by (simp add: upt_conv_Cons)
  have "isl (fst (scrape (before_attempt scrape a w0)))" using Suc.prems by simp
  then obtain e w1 where s: "scrape (before_attempt scrape a w0) = (Inl e, w1)"
    by (cases "scrape (before_attempt scrape a w0)") (auto simp: isl_def)
  have cond: "int a < int n - 1" using an by simp
  have ih: "retry_attempts (int n) scrape [Suc a..<n] (st @ [now (before_attempt scrape a w0)])
              (before_attempt scrape (Suc a) w0)
     = ((Inl (projl (fst (scrape (before_attempt scrape (n - 1) w0)))),
         (st @ [now (before_attempt scrape a w0)]) @
           map (\<lambda>j. now (before_attempt scrape j w0)) [Suc a..<n]),
        logger WARNING (AttemptFailed n (projl (fst (scrape (before_attempt scrape (n - 1) w0)))))
          (snd (scrape (before_attempt scrape (n - 1) w0))))"
    using Suc.hyps(1)[of "Suc a"] Suc.hyps(2) Suc.prems an by simp
  show ?case
    unfolding l using cond ih by (simp add: s Let_def del: before_attempt.simps) (simp add: s)
qed

lemma retry_attempts_length:
  "length (snd (fst (retry_attempts mr scrape xs st w))) \<le> length st + length xs"
proof (induction xs arbitrary: st w)
  case Nil
  then show ?case by simp
next
  case (Cons a xs)
  obtain r w1 where s: "scrape w = (r, w1)" by (cases "scrape w")
  show ?case
  proof (cases r)
    case (Inl e)
    show ?thesis
      using Cons.IH[of "st @ [now w]" "time_sleep (2 ^ a) (logger WARNING (AttemptFailed (a + 1) e) w1)"]
      by (simp add: s Inl Let_def)
  next
    case (Inr d)
    then show ?thesis by (simp add: s)
  qed
qed

lemma now_logger [simp]: "now (logger lv m w) = now w"
  by (simp add: logger_def)

lemma now_time_sleep [simp]: "now (time_sleep d w) = now w + d"
  by (simp add: time_sleep_def)

lemma now_datetime_now: "now w \<le> now (snd (datetime_now w))"
  by (simp add: datetime_now_def split: list.splits)

lemma now_session_get [simp]: "now (snd (session_get u w)) = now w"
  by (simp add: session_get_def split: list.splits)

lemma now_static_containers:
  "now w \<le> now (snd (static_containers cfg cs containers data w))"
proof (induction containers arbitrary: data w)
  case Nil
  then show ?case by simp
next
  case (Cons c containers)
  obtain t w1 where dn: "datetime_now w = (t, w1)" by (cases "datetime_now w")
  have m: "now w \<le> now w1" using now_datetime_now[of w] by (simp add: dn)
  show ?case
  proof (cases "static_fields cs c (selectors cfg)
                  [(''scraped_at'', Some (isoformat t)), (''url'', Some (url cfg))]")
    case (Inl e)
    then show ?thesis using m by (simp add: dn)
  next
    case (Inr item)
    then show ?thesis using m Cons.IH[where w = w1 and data = "data @ [item]"] by (simp add: dn)
  qed
qed

lemma now_session_getD: "session_get u w = (r, w') \<Longrightarrow> now w' = now w"
  using now_session_get[of u w] by simp

lemma now_static_containersD:
  "static_containers cfg cs containers data w = (r, w') \<Longrightarrow> now w \<le> now w'"
  using now_static_containers[of w cfg cs containers data] by simp

lemma now_static_scrape: "now w \<le> now (snd (static_scrape cfg w))"
  by (auto simp: static_scrape_def Let_def split: sum.splits list.splits prod.splits
           dest!: now_session_getD now_static_containersD)

lemmas example_defs =
  world0_def news_config_def product_config_def css_of_def leaf_def article1_def article2_def
  news_page_def news_world_def flaky_world_def bad_selector_config_def url_field_config_def
  plain_element_def card1_def card2_def shop_browser_def shop_world_def
  other_news_config_def seconds_config_def init_scheduler_def

lemmas static_defs =
  static_scrape_def session_get_def raise_for_status_def select_def select_one_def
  static_value_def tag_get_def truthy_def get_text_strip_def strip_def isspace_def unicode_space_def
  datetime_now_def logger_def time_sleep_def isoformat_def decimal.simps

section \<open>C2: bounded retry\<close>

text \<open>
  Claim C2. With \<open>max_retries\<close> at least 1 (the invariant of a job), \<^verbatim>\<open>retry_scrape\<close> calls
  \<^verbatim>\<open>scrape\<close> at most \<open>max_retries\<close> times; if the attempts before attempt \<open>k\<close> all raise and
  attempt \<open>k\<close> returns \<open>d\<close>, the result is \<open>d\<close> after exactly \<open>k + 1\<close> attempts (so two failures
  and a success are three attempts); if every attempt raises, exactly \<open>max_retries\<close> attempts
  are made and the exception of the last one is raised (three attempts for \<open>max_retries = 3\<close>).
\<close>

theorem retry_scrape_attempts:
  "1 \<le> max_retries cfg \<Longrightarrow>
   fst (retry_scrape cfg scrape w) = fst (fst (retry_scrape_traced cfg scrape w)) \<and>
   int (length (attempt_starts cfg scrape w)) \<le> max_retries cfg \<and>
   (\<forall>k d. int k < max_retries cfg \<and>
          (\<forall>j<k. isl (fst (scrape (before_attempt scrape j w)))) \<and>
          fst (scrape (before_attempt scrape k w)) = Inr d \<longrightarrow>
      fst (fst (retry_scrape_traced cfg scrape w)) = Inr (Some d) \<and>
      length (attempt_starts cfg scrape w) = Suc k) \<and>
   ((\<forall>j. int j < max_retries cfg \<longrightarrow> isl (fst (scrape (before_attempt scrape j w)))) \<longrightarrow>
      fst (fst (retry_scrape_traced cfg scrape w)) =
        Inl (projl (fst (scrape (before_attempt scrape (nat (max_retries cfg) - 1) w)))) \<and>
      length (attempt_starts cfg scrape w) = nat (max_retries cfg))"
proof -
  assume mr: "1 \<le> max_retries cfg"
  define n where "n = nat (max_retries cfg)"
  have n: "max_retries cfg = int n" and npos: "0 < n" using mr by (simp_all add: n_def)
  have tr: "retry_scrape_traced cfg scrape w =
              retry_attempts (int n) scrape [0..<n] [] (before_attempt scrape 0 w)"
    by (simp add: retry_scrape_traced_def n)
  have a: "fst (retry_scrape cfg scrape w) = fst (fst (retry_scrape_traced cfg scrape w))"
    by (simp add: retry_scrape_def split: prod.splits)
  have ts: "attempt_starts cfg scrape w =
              snd (fst (retry_attempts (int n) scrape [0..<n] [] (before_attempt scrape 0 w)))"
    by (simp add: attempt_starts_def tr)
  have b: "int (length (attempt_starts cfg scrape w)) \<le> max_retries cfg"
    using retry_attempts_length[of "int n" scrape "[0..<n]" "[]" w] by (simp add: ts n)
  have c: "fst (fst (retry_scrape_traced cfg scrape w)) = Inr (Some d) \<and>
           length (attempt_starts cfg scrape w) = Suc k"
    if "int k < max_retries cfg" "\<forall>j<k. isl (fst (scrape (before_attempt scrape j w)))"
       "fst (scrape (before_attempt scrape k w)) = Inr d" for k d
  proof -
    have "k < n" using that(1) n by simp
    then show ?thesis
      using retry_attempts_first_success[of 0 k scrape w d n "[]"] that(2,3)
      unfolding tr ts by simp
  qed
  have d: "fst (fst (retry_scrape_traced cfg scrape w)) =
             Inl (projl (fst (scrape (before_attempt scrape (nat (max_retries cfg) - 1) w)))) \<and>
           length (attempt_starts cfg scrape w) = nat (max_retries cfg)"
    if "\<forall>j. int j < max_retries cfg \<longrightarrow> isl (fst (scrape (before_attempt scrape j w)))"
  proof -
    have "\<forall>j. 0 \<le> j \<and> j < n \<longrightarrow> isl (fst (scrape (before_attempt scrape j w)))"
      using that n by simp
    from retry_attempts_all_fail[OF this npos, of "[]"] show ?thesis
      unfolding tr ts by (simp add: n)
  qed
  show ?thesis using a b c d by blast
qed

lemma flaky_run:
  "isl (fst (static_scrape news_config (before_attempt (static_scrape news_config) 0 flaky_world)))"
  "isl (fst (static_scrape news_config (before_attempt (static_scrape news_config) (Suc 0) flaky_world)))"
  "fst (static_scrape news_config (before_attempt (static_scrape news_config) (Suc (Suc 0)) flaky_world)) =
     Inr [[(''scraped_at'', Some ''3''), (''url'', Some ''https://example-news.com''),
           (''title'', Some ''First''), (''summary'', None), (''link'', Some ''/first''),
           (''date'', None)],
          [(''scraped_at'', Some ''3''), (''url'', Some ''https://example-news.com''),
           (''title'', Some ''Second''), (''summary'', None), (''link'', None),
           (''date'', None)]]"
  by (simp_all add: static_defs example_defs)

lemma dead_run:
  "isl (fst (static_scrape news_config (before_attempt (static_scrape news_config) j world0)))"
  "projl (fst (static_scrape news_config (before_attempt (static_scrape news_config) j world0))) =
     OtherException ''ConnectionError''"
proof -
  have "http (before_attempt (static_scrape news_config) j world0) = []"
    by (induction j) (simp_all add: static_defs example_defs)
  then show
    "isl (fst (static_scrape news_config (before_attempt (static_scrape news_config) j world0)))"
    "projl (fst (static_scrape news_config (before_attempt (static_scrape news_config) j world0))) =
       OtherException ''ConnectionError''"
    by (simp_all add: static_scrape_def session_get_def logger_def)
qed

theorem retry_scrape_attempts_witness:
  "1 \<le> max_retries news_config \<and>
   fst (retry_scrape news_config (static_scrape news_config) flaky_world) =
     Inr (Some
       [[(''scraped_at'', Some ''3''), (''url'', Some ''https://example-news.com''),
         (''title'', Some ''First''), (''summary'', None), (''link'', Some ''/first''),
         (''date'', None)],
        [(''scraped_at'', Some ''3''), (''url'', Some ''https://example-news.com''),
         (''title'', Some ''Second''), (''summary'', None), (''link'', None),
         (''date'', None)]]) \<and>
   length flaky_starts = 3 \<and>
   fst (retry_scrape news_config (static_scrape news_config) world0) =
     Inl (OtherException ''ConnectionError'') \<and>
   length (attempt_starts news_config (static_scrape news_config) world0) = 3"
proof -
  have mr: "1 \<le> max_retries news_config" and m3: "max_retries news_config = 3"
    by (simp_all add: news_config_def)
  have two: "\<forall>j<Suc (Suc 0).
      isl (fst (static_scrape news_config (before_attempt (static_scrape news_config) j flaky_world)))"
    using flaky_run(1,2) by (auto simp: less_Suc_eq)
  have k: "int (Suc (Suc 0)) < max_retries news_config" by (simp add: m3)
  note flaky = retry_scrape_attempts[OF mr, of "static_scrape news_config" flaky_world]
  note dead = retry_scrape_attempts[OF mr, of "static_scrape news_config" world0]
  have f1: "fst (retry_scrape news_config (static_scrape news_config) flaky_world) =
              fst (fst (retry_scrape_traced news_config (static_scrape news_config) flaky_world))"
    using flaky by blast
  have f2: "fst (fst (retry_scrape_traced news_config (static_scrape news_config) flaky_world)) =
     Inr (Some
       [[(''scraped_at'', Some ''3''), (''url'', Some ''https://example-news.com''),
         (''title'', Some ''First''), (''summary'', None), (''link'', Some ''/first''),
         (''date'', None)],
        [(''scraped_at'', Some ''3''), (''url'', Some ''https://example-news.com''),
         (''title'', Some ''Second''), (''summary'', None), (''link'', None),
         (''date'', None)]]) \<and>
     length (attempt_starts news_config (static_scrape news_config) flaky_world) =
       Suc (Suc (Suc 0))"
    using flaky two k flaky_run(3) by blast
  have d1: "fst (retry_scrape news_config (static_scrape news_config) world0) =
              fst (fst (retry_scrape_traced news_config (static_scrape news_config) world0))"
    using dead by blast
  have d2: "fst (fst (retry_scrape_traced news_config (static_scrape news_config) world0)) =
              Inl (projl (fst (static_scrape news_config
                     (before_attempt (static_scrape news_config) (nat (max_retries news_config) - 1) world0)))) \<and>
            length (attempt_starts news_config (static_scrape news_config) world0) =
              nat (max_retries news_config)"
    using dead dead_run(1) by blast
  show ?thesis
    using mr f1 f2 d1 d2 dead_run(2) unfolding flaky_starts_def by (simp add: m3)
qed

lemma retry_attempts_end:
  "\<exists>m. snd (fst (retry_attempts mr scrape [a..<nat mr] st (before_attempt scrape a w0))) =
          st @ map (\<lambda>j. now (before_attempt scrape j w0)) [a..<a + m] \<and>
        (\<forall>j. a \<le> j \<and> Suc j < a + m \<longrightarrow> isl (fst (scrape (before_attempt scrape j w0)))) \<and>
        (m = 0 \<longrightarrow> nat mr \<le> a \<and>
           snd (retry_attempts mr scrape [a..<nat mr] st (before_attempt scrape a w0)) =
             before_attempt scrape a w0) \<and>
        (0 < m \<longrightarrow>
           snd (retry_attempts mr scrape [a..<nat mr] st (before_attempt scrape a w0)) =
             after_last_attempt scrape (a + m - 1) w0)"
proof (induction "nat mr - a" arbitrary: a st)
  case 0
  then show ?case by (intro exI[of _ 0]) auto
next
  case (Suc m)
  then have an: "a < nat mr" by simp
  have l: "[a..<nat mr] = a # [Suc a..<nat mr]" using an by (simp add: upt_conv_Cons)
  obtain r w1 where s: "scrape (before_attempt scrape a w0) = (r, w1)"
    by (cases "scrape (before_attempt scrape a w0)")
  show ?case
  proof (cases r)
    case (Inr d)
    show ?thesis unfolding l
      by (rule exI[of _ 1]) (auto simp: s Inr after_last_attempt_def)
  next
    case (Inl e)
    show ?thesis
    proof (cases "int a < mr - 1")
      case False
      show ?thesis unfolding l using False
        by (intro exI[of _ 1]) (auto simp: s Inl Let_def after_last_attempt_def)
    next
      case True
      then have more: "Suc a < nat mr" by simp
      have nxt: "before_attempt scrape (Suc a) w0 =
                   time_sleep (2 ^ a) (logger WARNING (AttemptFailed (a + 1) e) w1)"
        by (simp add: s Inl)
      have "m = nat mr - Suc a" using Suc.hyps(2) by simp
      from Suc.hyps(1)[OF this, of "st @ [now (before_attempt scrape a w0)]"]
      obtain m' where m':
        "snd (fst (retry_attempts mr scrape [Suc a..<nat mr] (st @ [now (before_attempt scrape a w0)])
                     (before_attempt scrape (Suc a) w0))) =
           (st @ [now (before_attempt scrape a w0)]) @
             map (\<lambda>j. now (before_attempt scrape j w0)) [Suc a..<Suc a + m']"
        "\<forall>j. Suc a \<le> j \<and> Suc j < Suc a + m' \<longrightarrow> isl (fst (scrape (before_attempt scrape j w0)))"
        "m' = 0 \<longrightarrow> nat mr \<le> Suc a"
        "0 < m' \<longrightarrow>
           snd (retry_attempts mr scrape [Suc a..<nat mr] (st @ [now (before_attempt scrape a w0)])
                  (before_attempt scrape (Suc a) w0)) =
             after_last_attempt scrape (Suc a + m' - 1) w0"
        by blast
      have pos: "0 < m'" using m'(3) more by (cases m') auto
      have up: "[a..<a + Suc m'] = a # [Suc a..<Suc a + m']" by (simp add: upt_conv_Cons)
      have fails: "\<forall>j. a \<le> j \<and> Suc j < a + Suc m' \<longrightarrow> isl (fst (scrape (before_attempt scrape j w0)))"
      proof (intro allI impI)
        fix j assume j: "a \<le> j \<and> Suc j < a + Suc m'"
        show "isl (fst (scrape (before_attempt scrape j w0)))"
        proof (cases "j = a")
          case True
          then show ?thesis by (simp add: s Inl)
        next
          case False
          then show ?thesis using j m'(2) by simp
        qed
      qed
      have unfold: "retry_attempts mr scrape [a..<nat mr] st (before_attempt scrape a w0) =
              retry_attempts mr scrape [Suc a..<nat mr] (st @ [now (before_attempt scrape a w0)])
                (before_attempt scrape (Suc a) w0)"
        unfolding l nxt using True by (simp add: s Inl Let_def)
      have starts: "snd (fst (retry_attempts mr scrape [a..<nat mr] st (before_attempt scrape a w0))) =
              st @ map (\<lambda>j. now (before_attempt scrape j w0)) [a..<a + Suc m']"
        unfolding unfold up using m'(1) by (simp del: before_attempt.simps upt_Suc)
      have final: "snd (retry_attempts mr scrape [a..<nat mr] st (before_attempt scrape a w0)) =
              after_last_attempt scrape (a + Suc m' - 1) w0"
        unfolding unfold using m'(4) pos by simp
      show ?thesis
        by (rule exI[of _ "Suc m'"]) (use starts fails final in blast)
    qed
  qed
qed

lemma range_3: "[0..<3] = [0, 1, 2]"
  by (simp add: numeral_3_eq_3 numeral_2_eq_2)

lemma now_after_last_attempt:
  "now (after_last_attempt scrape k w) = now (snd (scrape (before_attempt scrape k w)))"
  by (cases "scrape (before_attempt scrape k w)")
     (auto simp: after_last_attempt_def split: sum.splits)

section \<open>C1: the delay between attempts\<close>

text \<open>
  Claim C1, as the code has it. The delays lie between the attempts and nowhere else. No delay
  precedes the first attempt: it starts at the clock \<^verbatim>\<open>retry_scrape\<close> was entered with.
  Attempt \<open>k + 1\<close> starts exactly \<open>2 ^ k\<close> time units after attempt \<open>k\<close> (counted from 0) has
  failed; so the start of the second attempt is at least 1 unit after the start of the first,
  and the start of the third at least 2 units after the start of the second, whenever a scrape
  does not turn the clock back. No delay follows the last attempt: \<^verbatim>\<open>retry_scrape\<close> ends in
  the world in which the last attempt made has ended (with its warning logged if it failed),
  at the clock at which that scrape ended; and when no attempt is made, nothing happens at all.
\<close>

theorem retry_backoff_delays:
  "(attempt_starts cfg scrape w \<noteq> [] \<longrightarrow> hd (attempt_starts cfg scrape w) = now w) \<and>
   (\<forall>k. Suc k < length (attempt_starts cfg scrape w) \<longrightarrow>
      attempt_starts cfg scrape w ! k = now (before_attempt scrape k w) \<and>
      attempt_starts cfg scrape w ! Suc k = now (snd (scrape (before_attempt scrape k w))) + 2 ^ k \<and>
      ((\<forall>w'. now w' \<le> now (snd (scrape w'))) \<longrightarrow>
         attempt_starts cfg scrape w ! k + 2 ^ k \<le> attempt_starts cfg scrape w ! Suc k)) \<and>
   (attempt_starts cfg scrape w \<noteq> [] \<longrightarrow>
      snd (retry_scrape cfg scrape w) =
        after_last_attempt scrape (length (attempt_starts cfg scrape w) - 1) w \<and>
      now (snd (retry_scrape cfg scrape w)) =
        now (snd (scrape (before_attempt scrape (length (attempt_starts cfg scrape w) - 1) w)))) \<and>
   (attempt_starts cfg scrape w = [] \<longrightarrow> snd (retry_scrape cfg scrape w) = w)"
proof -
  have rs: "snd (retry_scrape cfg scrape w) =
            snd (retry_attempts (max_retries cfg) scrape [0..<nat (max_retries cfg)] [] w)"
    by (simp add: retry_scrape_def retry_scrape_traced_def split: prod.splits)
  obtain m where m:
    "attempt_starts cfg scrape w = map (\<lambda>j. now (before_attempt scrape j w)) [0..<m]"
    "\<forall>j. Suc j < m \<longrightarrow> isl (fst (scrape (before_attempt scrape j w)))"
    "m = 0 \<longrightarrow> snd (retry_scrape cfg scrape w) = w"
    "0 < m \<longrightarrow> snd (retry_scrape cfg scrape w) = after_last_attempt scrape (m - 1) w"
    using retry_attempts_end[of "max_retries cfg" scrape 0 "[]" w]
    by (auto simp: attempt_starts_def retry_scrape_traced_def rs)
  have len: "length (attempt_starts cfg scrape w) = m" by (simp add: m(1))
  have first: "attempt_starts cfg scrape w \<noteq> [] \<longrightarrow> hd (attempt_starts cfg scrape w) = now w"
  proof
    assume "attempt_starts cfg scrape w \<noteq> []"
    then have "0 < m" using len by (cases m) auto
    then show "hd (attempt_starts cfg scrape w) = now w"
      by (simp add: m(1) hd_map upt_conv_Cons)
  qed
  have step: "attempt_starts cfg scrape w ! k = now (before_attempt scrape k w) \<and>
      attempt_starts cfg scrape w ! Suc k = now (snd (scrape (before_attempt scrape k w))) + 2 ^ k \<and>
      ((\<forall>w'. now w' \<le> now (snd (scrape w'))) \<longrightarrow>
         attempt_starts cfg scrape w ! k + 2 ^ k \<le> attempt_starts cfg scrape w ! Suc k)"
    if k: "Suc k < length (attempt_starts cfg scrape w)" for k
  proof -
    have km: "Suc k < m" using k len by simp
    have a: "attempt_starts cfg scrape w ! k = now (before_attempt scrape k w)"
      using km by (simp add: m(1))
    have b0: "attempt_starts cfg scrape w ! Suc k = now (before_attempt scrape (Suc k) w)"
      using km by (simp add: m(1) del: before_attempt.simps)
    have "isl (fst (scrape (before_attempt scrape k w)))" using m(2) km by blast
    then obtain e w1 where s: "scrape (before_attempt scrape k w) = (Inl e, w1)"
      by (cases "scrape (before_attempt scrape k w)") (auto simp: isl_def)
    have b: "attempt_starts cfg scrape w ! Suc k = now (snd (scrape (before_attempt scrape k w))) + 2 ^ k"
      unfolding b0 by (simp add: s)
    have c: "attempt_starts cfg scrape w ! k + 2 ^ k \<le> attempt_starts cfg scrape w ! Suc k"
      if "\<forall>w'. now w' \<le> now (snd (scrape w'))"
      using that[rule_format, of "before_attempt scrape k w"] unfolding a b by simp
    show ?thesis using a b c by blast
  qed
  have last: "snd (retry_scrape cfg scrape w) =
        after_last_attempt scrape (length (attempt_starts cfg scrape w) - 1) w \<and>
      now (snd (retry_scrape cfg scrape w)) =
        now (snd (scrape (before_attempt scrape (length (attempt_starts cfg scrape w) - 1) w)))"
    if ne: "attempt_starts cfg scrape w \<noteq> []"
  proof -
    have "0 < m" using ne len by (cases m) auto
    then have "snd (retry_scrape cfg scrape w) = after_last_attempt scrape (m - 1) w"
      using m(4) by blast
    then show ?thesis unfolding len by (simp add: now_after_last_attempt)
  qed
  have none: "snd (retry_scrape cfg scrape w) = w" if "attempt_starts cfg scrape w = []"
    using that len m(3) by simp
  show ?thesis using first step last none by blast
qed

theorem retry_backoff_delays_witness:
  "flaky_starts = [0, 1, 3] \<and> hd flaky_starts = now flaky_world \<and>
   (\<forall>w'. now w' \<le> now (snd (static_scrape news_config w'))) \<and>
   flaky_starts ! 0 + 2 ^ 0 \<le> flaky_starts ! Suc 0 \<and>
   flaky_starts ! Suc 0 + 2 ^ Suc 0 \<le> flaky_starts ! Suc (Suc 0) \<and>
   now (snd (static_scrape news_config (before_attempt (static_scrape news_config) 2 flaky_world))) = 3 \<and>
   now (snd (retry_scrape news_config (static_scrape news_config) flaky_world)) = 3 \<and>
   attempt_starts (news_config\<lparr>max_retries := 0\<rparr>) (static_scrape news_config) flaky_world = [] \<and>
   snd (retry_scrape (news_config\<lparr>max_retries := 0\<rparr>) (static_scrape news_config) flaky_world) =
     flaky_world \<and>
   attempt_starts news_config (static_scrape news_config) world0 = [0, 1, 3] \<and>
   isl (fst (retry_scrape news_config (static_scrape news_config) world0)) \<and>
   now (snd (retry_scrape news_config (static_scrape news_config) world0)) = 3 \<and>
   attempt_starts (news_config\<lparr>max_retries := 1\<rparr>) (static_scrape news_config) world0 = [0] \<and>
   isl (fst (retry_scrape (news_config\<lparr>max_retries := 1\<rparr>) (static_scrape news_config) world0)) \<and>
   now (snd (retry_scrape (news_config\<lparr>max_retries := 1\<rparr>) (static_scrape news_config) world0)) = 0"
proof -
  have d: "attempt_starts news_config (static_scrape news_config) world0 = [0, 1, 3] \<and>
           isl (fst (retry_scrape news_config (static_scrape news_config) world0)) \<and>
           now (snd (retry_scrape news_config (static_scrape news_config) world0)) = 3"
    by (simp add: attempt_starts_def retry_scrape_def retry_scrape_traced_def static_defs
                  example_defs Let_def range_3)
  have o: "attempt_starts (news_config\<lparr>max_retries := 1\<rparr>) (static_scrape news_config) world0 = [0] \<and>
           isl (fst (retry_scrape (news_config\<lparr>max_retries := 1\<rparr>) (static_scrape news_config)
                       world0)) \<and>
           now (snd (retry_scrape (news_config\<lparr>max_retries := 1\<rparr>) (static_scrape news_config)
                       world0)) = 0"
    by (simp add: attempt_starts_def retry_scrape_def retry_scrape_traced_def static_defs
                  example_defs Let_def)
  have fs: "flaky_starts = [0, 1, 3]"
    by (simp add: flaky_starts_def attempt_starts_def retry_scrape_traced_def static_defs
                  example_defs Let_def range_3)
  have mono: "\<forall>w'. now w' \<le> now (snd (static_scrape news_config w'))"
    using now_static_scrape by blast
  note T = retry_backoff_delays[of news_config "static_scrape news_config" flaky_world,
             folded flaky_starts_def]
  have ne: "flaky_starts \<noteq> []" and l0: "Suc 0 < length flaky_starts"
    and l1: "Suc (Suc 0) < length flaky_starts" and l2: "length flaky_starts - 1 = 2"
    by (simp_all add: fs)
  have h: "hd flaky_starts = now flaky_world" using T ne by blast
  have g0: "flaky_starts ! 0 + 2 ^ 0 \<le> flaky_starts ! Suc 0"
    using T mono l0 by blast
  have g1: "flaky_starts ! Suc 0 + 2 ^ Suc 0 \<le> flaky_starts ! Suc (Suc 0)"
    using T mono l1 by blast
  have e0: "now (snd (static_scrape news_config
                        (before_attempt (static_scrape news_config) 2 flaky_world))) = 3"
    by (simp add: numeral_2_eq_2 static_defs example_defs Let_def)
  have "now (snd (retry_scrape news_config (static_scrape news_config) flaky_world)) =
        now (snd (static_scrape news_config
                    (before_attempt (static_scrape news_config) (length flaky_starts - 1) flaky_world)))"
    using T ne by blast
  then have e1: "now (snd (retry_scrape news_config (static_scrape news_config) flaky_world)) = 3"
    unfolding l2 using e0 by simp
  have z: "attempt_starts (news_config\<lparr>max_retries := 0\<rparr>) (static_scrape news_config) flaky_world = []"
    by (simp add: attempt_starts_def retry_scrape_traced_def)
  have e2: "snd (retry_scrape (news_config\<lparr>max_retries := 0\<rparr>) (static_scrape news_config) flaky_world) =
              flaky_world"
    using retry_backoff_delays[of "news_config\<lparr>max_retries := 0\<rparr>" "static_scrape news_config"
            flaky_world] z by blast
  show ?thesis using fs h mono g0 g1 e0 e1 z e2 d o by blast
qed

text \<open>
  The claim as stated (gaps of at least 2 and at least 4 units) fails on the run against the
  flaky server, whose three attempts start at 0, 1 and 3.
\<close>

theorem backoff_gap_counterexample:
  "\<not> isl (fst (retry_scrape news_config (static_scrape news_config) flaky_world)) \<and>
   flaky_starts = [0, 1, 3] \<and>
   \<not> (flaky_starts ! 0 + 2 \<le> flaky_starts ! 1) \<and>
   \<not> (flaky_starts ! 1 + 4 \<le> flaky_starts ! 2)"
  by (simp add: flaky_starts_def attempt_starts_def retry_scrape_def retry_scrape_traced_def
                static_defs example_defs Let_def range_3)

section \<open>Properties of the extraction loops\<close>

lemma static_fields_untouched:
  "static_fields cs c sels item = Inr item' \<Longrightarrow>
   (\<forall>p \<in> set sels. fst p \<noteq> cs \<longrightarrow> fst p \<noteq> k) \<Longrightarrow> map_of item' k = map_of item k"
proof (induction sels arbitrary: item)
  case Nil
  then show ?case by simp
next
  case (Cons p sels)
  obtain f sel where p: "p = (f, sel)" by (cases p)
  show ?case
  proof (cases "f = cs")
    case True
    then show ?thesis using Cons p by simp
  next
    case False
    then have fk: "f \<noteq> k" using Cons.prems(2) p by auto
    show ?thesis using Cons.prems Cons.IH False fk p
      by (auto simp: update_conv' split: sum.splits option.splits)
  qed
qed

lemma static_fields_returns:
  "(\<forall>p \<in> set sels. fst p \<noteq> cs \<longrightarrow> \<not> isl (select_one c (snd p))) \<Longrightarrow>
   \<exists>item'. static_fields cs c sels item = Inr item'"
proof (induction sels arbitrary: item)
  case Nil
  then show ?case by simp
next
  case (Cons p sels)
  obtain f sel where p: "p = (f, sel)" by (cases p)
  show ?case using Cons p
    by (cases "select_one c sel") (auto split: option.splits)
qed

lemma static_fields_written:
  "static_fields cs c sels item = Inr item' \<Longrightarrow> distinct (map fst sels) \<Longrightarrow>
   (f, sel) \<in> set sels \<Longrightarrow> f \<noteq> cs \<Longrightarrow>
   map_of item' f =
     Some (case select_one c sel of Inr (Some element) \<Rightarrow> static_value element | _ \<Rightarrow> None)"
proof (induction sels arbitrary: item)
  case Nil
  then show ?case by simp
next
  case (Cons p sels)
  obtain g s where p: "p = (g, s)" by (cases p)
  show ?case
  proof (cases "(f, sel) = (g, s)")
    case True
    then have notin: "\<forall>q \<in> set sels. fst q \<noteq> cs \<longrightarrow> fst q \<noteq> f"
      using Cons.prems(2) p by auto
    show ?thesis using Cons.prems(1,4) True p static_fields_untouched[OF _ notin]
      by (auto simp: update_conv' split: sum.splits option.splits)
  next
    case False
    then have "(f, sel) \<in> set sels" using Cons.prems(3) p by auto
    then show ?thesis using Cons.prems Cons.IH p
      by (auto split: sum.splits option.splits if_splits)
  qed
qed

lemma static_containers_items:
  "static_containers cfg cs containers data w = (Inr data', w') \<Longrightarrow>
   \<exists>new. data' = data @ new \<and> length new = length containers \<and>
     (\<forall>i < length containers.
        static_fields cs (containers ! i) (selectors cfg) (stamps cfg (reading i w)) = Inr (new ! i))"
proof (induction containers arbitrary: data w)
  case Nil
  then show ?case by simp
next
  case (Cons c containers)
  obtain t w1 where dn: "datetime_now w = (t, w1)" by (cases "datetime_now w")
  from Cons.prems dn obtain item where
    it: "static_fields cs c (selectors cfg) (stamps cfg t) = Inr item"
    and rest: "static_containers cfg cs containers (data @ [item]) w1 = (Inr data', w')"
    by (auto simp: stamps_def split: sum.splits)
  from Cons.IH[OF rest] obtain new where
    n: "data' = (data @ [item]) @ new" "length new = length containers"
       "\<forall>i < length containers.
          static_fields cs (containers ! i) (selectors cfg) (stamps cfg (reading i w1)) = Inr (new ! i)"
    by blast
  have r0: "reading 0 w = t" by (simp add: reading_def dn)
  have rs: "\<And>i. reading (Suc i) w = reading i w1" by (simp add: reading_def dn)
  have "\<forall>i < length (c # containers).
          static_fields cs ((c # containers) ! i) (selectors cfg) (stamps cfg (reading i w)) = Inr ((item # new) ! i)"
  proof (intro allI impI)
    fix i assume "i < length (c # containers)"
    then show "static_fields cs ((c # containers) ! i) (selectors cfg) (stamps cfg (reading i w)) = Inr ((item # new) ! i)"
      using n(3) it r0 rs by (cases i) auto
  qed
  then show ?case using n by (intro exI[of _ "item # new"]) simp
qed

lemma static_containers_returns:
  "(\<forall>c \<in> set containers. \<forall>p \<in> set (selectors cfg). fst p \<noteq> cs \<longrightarrow> \<not> isl (select_one c (snd p))) \<Longrightarrow>
   \<exists>data' w'. static_containers cfg cs containers data w = (Inr data', w')"
proof (induction containers arbitrary: data w)
  case Nil
  then show ?case by simp
next
  case (Cons c containers)
  obtain t w1 where dn: "datetime_now w = (t, w1)" by (cases "datetime_now w")
  have "\<forall>p \<in> set (selectors cfg). fst p \<noteq> cs \<longrightarrow> \<not> isl (select_one c (snd p))"
    using Cons.prems by simp
  from static_fields_returns[OF this] obtain item where
    it: "static_fields cs c (selectors cfg) [(''scraped_at'', Some (isoformat t)), (''url'', Some (url cfg))] = Inr item"
    by blast
  show ?case using Cons.IH[of "data @ [item]" w1] Cons.prems by (simp add: dn it)
qed

lemma dynamic_fields_untouched:
  "(\<forall>p \<in> set sels. fst p \<noteq> cs \<longrightarrow> fst p \<noteq> k) \<Longrightarrow>
   map_of (dynamic_fields cs c sels item) k = map_of item k"
proof (induction sels arbitrary: item)
  case Nil
  then show ?case by simp
next
  case (Cons p sels)
  obtain f sel where p: "p = (f, sel)" by (cases p)
  show ?case using Cons p by (auto simp: update_conv')
qed

lemma dynamic_fields_written:
  "distinct (map fst sels) \<Longrightarrow> (f, sel) \<in> set sels \<Longrightarrow> f \<noteq> cs \<Longrightarrow>
   map_of (dynamic_fields cs c sels item) f = Some (dynamic_field c sel)"
proof (induction sels arbitrary: item)
  case Nil
  then show ?case by simp
next
  case (Cons p sels)
  obtain g s where p: "p = (g, s)" by (cases p)
  show ?case
  proof (cases "(f, sel) = (g, s)")
    case True
    then have notin: "\<forall>q \<in> set sels. fst q \<noteq> cs \<longrightarrow> fst q \<noteq> f"
      using Cons.prems(1) p by auto
    show ?thesis using Cons.prems(3) True p dynamic_fields_untouched[OF notin]
      by (simp add: update_conv')
  next
    case False
    then have "(f, sel) \<in> set sels" using Cons.prems(2) p by auto
    then show ?thesis using Cons.prems Cons.IH p by auto
  qed
qed

lemma dynamic_containers_items:
  "\<exists>new. fst (dynamic_containers cfg cs containers data w) = data @ new \<and>
     length new = length containers \<and>
     (\<forall>i < length containers.
        new ! i = dynamic_fields cs (containers ! i) (selectors cfg) (stamps cfg (reading i w)))"
proof (induction containers arbitrary: data w)
  case Nil
  then show ?case by simp
next
  case (Cons c containers)
  obtain t w1 where dn: "datetime_now w = (t, w1)" by (cases "datetime_now w")
  define item where "item = dynamic_fields cs c (selectors cfg) (stamps cfg t)"
  from Cons.IH[of "data @ [item]" w1] obtain new where
    n: "fst (dynamic_containers cfg cs containers (data @ [item]) w1) = (data @ [item]) @ new"
       "length new = length containers"
       "\<forall>i < length containers.
          new ! i = dynamic_fields cs (containers ! i) (selectors cfg) (stamps cfg (reading i w1))"
    by blast
  have r0: "reading 0 w = t" by (simp add: reading_def dn)
  have rs: "\<And>i. reading (Suc i) w = reading i w1" by (simp add: reading_def dn)
  have "\<forall>i < length (c # containers).
          (item # new) ! i = dynamic_fields cs ((c # containers) ! i) (selectors cfg) (stamps cfg (reading i w))"
  proof (intro allI impI)
    fix i assume "i < length (c # containers)"
    then show "(item # new) ! i = dynamic_fields cs ((c # containers) ! i) (selectors cfg) (stamps cfg (reading i w))"
      using n(3) r0 rs by (cases i) (auto simp: item_def)
  qed
  then show ?case using n by (intro exI[of _ "item # new"]) (simp add: dn item_def stamps_def)
qed

lemma strip_trims:
  "\<exists>a b. s = a @ strip s @ b \<and> list_all isspace a \<and> list_all isspace b \<and>
         (strip s \<noteq> [] \<longrightarrow> \<not> isspace (hd (strip s)) \<and> \<not> isspace (last (strip s)))"
proof -
  define a where "a = takeWhile isspace s"
  define t where "t = dropWhile isspace s"
  define b where "b = rev (takeWhile isspace (rev t))"
  have st: "strip s = rev (dropWhile isspace (rev t))" by (simp add: strip_def t_def)
  have "rev (takeWhile isspace (rev t) @ dropWhile isspace (rev t)) = t"
    by (simp only: takeWhile_dropWhile_id rev_rev_ident)
  then have "rev (dropWhile isspace (rev t)) @ rev (takeWhile isspace (rev t)) = t"
    by (simp only: rev_append)
  then have t: "t = strip s @ b" by (simp only: st b_def)
  have "s = a @ t" by (simp add: a_def t_def)
  then have s: "s = a @ strip s @ b" using t by simp
  have la: "list_all isspace a" unfolding a_def list_all_iff by (auto dest: set_takeWhileD)
  have lb: "list_all isspace b" unfolding b_def list_all_iff by (auto dest: set_takeWhileD)
  have ends: "\<not> isspace (hd (strip s)) \<and> \<not> isspace (last (strip s))" if ne: "strip s \<noteq> []"
  proof -
    have "dropWhile isspace (rev t) \<noteq> []" using ne st by simp
    then have "\<not> isspace (hd (dropWhile isspace (rev t)))" by (rule hd_dropWhile)
    then have l: "\<not> isspace (last (strip s))" using ne st by (simp add: last_rev)
    have "t \<noteq> []" using t ne by auto
    then have "\<not> isspace (hd t)" unfolding t_def by (rule hd_dropWhile)
    moreover have "hd t = hd (strip s)" using t ne by (metis hd_append2)
    ultimately show ?thesis using l by simp
  qed
  show ?thesis using s la lb ends by blast
qed

lemma datetime_now_cong:
  assumes "now w' = now w" and "pending w' = pending w"
  shows "fst (datetime_now w') = fst (datetime_now w)"
    and "now (snd (datetime_now w')) = now (snd (datetime_now w))"
    and "pending (snd (datetime_now w')) = pending (snd (datetime_now w))"
proof -
  show "fst (datetime_now w') = fst (datetime_now w)"
    unfolding datetime_now_def assms by (cases "pending w") simp_all
  show "now (snd (datetime_now w')) = now (snd (datetime_now w))"
    unfolding datetime_now_def assms by (cases "pending w") (simp_all add: assms)
  show "pending (snd (datetime_now w')) = pending (snd (datetime_now w))"
    unfolding datetime_now_def assms by (cases "pending w") (simp_all add: assms)
qed

lemma after_readings_cong:
  "now w' = now w \<Longrightarrow> pending w' = pending w \<Longrightarrow>
   now (after_readings i w') = now (after_readings i w) \<and>
   pending (after_readings i w') = pending (after_readings i w)"
proof (induction i arbitrary: w w')
  case 0
  then show ?case by simp
next
  case (Suc i)
  show ?case
    using Suc.IH[OF datetime_now_cong(2)[OF Suc.prems] datetime_now_cong(3)[OF Suc.prems]]
    by simp
qed

lemma reading_cong:
  "now w' = now w \<Longrightarrow> pending w' = pending w \<Longrightarrow> reading i w' = reading i w"
  unfolding reading_def
  using after_readings_cong[of w' w i] datetime_now_cong(1) by blast

lemma static_fields_skip_first [simp]:
  "static_fields cs c ((cs, v) # rest) item = static_fields cs c rest item"
  by simp

lemma dynamic_fields_skip_first [simp]:
  "dynamic_fields cs c ((cs, v) # rest) item = dynamic_fields cs c rest item"
  by simp

lemma static_containers_first_value:
  "selectors cfg = (k, v) # rest \<Longrightarrow>
   static_containers (cfg\<lparr>selectors := (k, v') # rest\<rparr>) k containers data w =
   static_containers cfg k containers data w"
  by (induction containers arbitrary: data w)
     (simp_all cong: prod.case_cong sum.case_cong)

lemma dynamic_containers_first_value:
  "selectors cfg = (k, v) # rest \<Longrightarrow>
   dynamic_containers (cfg\<lparr>selectors := (k, v') # rest\<rparr>) k containers data w =
   dynamic_containers cfg k containers data w"
  by (induction containers arbitrary: data w) (simp_all cong: prod.case_cong)

lemma static_scrape_first_value:
  "selectors cfg = (k, v) # rest \<Longrightarrow>
   static_scrape (cfg\<lparr>selectors := (k, v') # rest\<rparr>) w = static_scrape cfg w"
  by (simp add: static_scrape_def static_containers_first_value Let_def
           cong: prod.case_cong sum.case_cong)

lemma dynamic_scrape_first_value:
  "selectors cfg = (k, v) # rest \<Longrightarrow>
   dynamic_scrape (cfg\<lparr>selectors := (k, v') # rest\<rparr>) w = dynamic_scrape cfg w"
  by (simp add: dynamic_scrape_def dynamic_try_def dynamic_containers_first_value Let_def
           cong: prod.case_cong sum.case_cong option.case_cong if_cong)

text \<open>The scrape once the page has been fetched, and once the browser shows it.\<close>

lemma static_scrape_fetched:
  assumes "http w = Inr resp # rs"
      and "\<not> (400 \<le> status_code resp \<and> status_code resp < 600)"
      and "selectors cfg = (cs, v) # rest"
  shows "static_scrape cfg w =
     (case select (content resp) cs of
        Inl e \<Rightarrow> (Inl e, (logger INFO (StartingStatic (url cfg)) w)\<lparr>http := rs\<rparr>)
      | Inr containers \<Rightarrow>
          (case static_containers cfg cs containers []
                  ((logger INFO (StartingStatic (url cfg)) w)\<lparr>http := rs\<rparr>) of
             (Inl e, w3) \<Rightarrow> (Inl e, w3)
           | (Inr data, w3) \<Rightarrow> (Inr data, logger INFO (StaticCompleted (length data)) w3)))"
proof -
  have h: "http (logger INFO (StartingStatic (url cfg)) w) = Inr resp # rs"
    using assms(1) by (simp add: logger_def)
  have ok: "raise_for_status resp = Inr ()"
    using assms(2) by (simp add: raise_for_status_def)
  show ?thesis
    by (simp add: static_scrape_def session_get_def h ok assms(3) Let_def)
qed

lemma dynamic_scrape_shown:
  assumes "chrome w = Inr b # bs"
      and "navigate b (url cfg) = None"
      and "truthy (wait_for_element cfg) \<longrightarrow> wait_until b (the (wait_for_element cfg)) = None"
      and "selectors cfg = (cs, v) # rest"
  shows "fst (dynamic_scrape cfg w) =
     (case page_elements b cs of
        Inl e \<Rightarrow> Inl e
      | Inr containers \<Rightarrow>
          Inr (fst (dynamic_containers cfg cs containers []
                 (time_sleep 2 ((logger INFO (StartingDynamic (url cfg)) w)
                                  \<lparr>chrome := bs, driver := Some b\<rparr>)))))"
proof -
  have h: "chrome (logger INFO (StartingDynamic (url cfg)) w) = Inr b # bs"
    using assms(1) by (simp add: logger_def)
  have wt: "(if truthy (wait_for_element cfg) then wait_until b (the (wait_for_element cfg)) else None)
              = None"
    using assms(3) by simp
  show ?thesis
    by (simp add: dynamic_scrape_def dynamic_try_def setup_driver_def h wt assms(2,4) Let_def
             split: sum.splits prod.splits)
qed

lemma map_of_stamps:
  "map_of (stamps cfg t) ''url'' = Some (Some (url cfg))"
  "map_of (stamps cfg t) ''scraped_at'' = Some (Some (isoformat t))"
  by (simp_all add: stamps_def)

lemma static_scrape_records:
  assumes h: "http w = Inr resp # rs"
      and ok: "\<not> (400 \<le> status_code resp \<and> status_code resp < 600)"
      and sel: "selectors cfg = (cs, v) # rest"
      and cont: "select (content resp) cs = Inr containers"
      and look: "\<forall>c\<in>set containers. \<forall>p\<in>set rest. fst p \<noteq> cs \<longrightarrow> \<not> isl (select_one c (snd p))"
  shows "\<exists>data. fst (static_scrape cfg w) = Inr data \<and> length data = length containers \<and>
           (\<forall>i<length containers.
              static_fields cs (containers ! i) rest (stamps cfg (reading i w)) = Inr (data ! i))"
proof -
  define w2 where "w2 = (logger INFO (StartingStatic (url cfg)) w)\<lparr>http := rs\<rparr>"
  have rd: "reading i w2 = reading i w" for i
    by (rule reading_cong) (simp_all add: w2_def logger_def)
  have look': "\<forall>c\<in>set containers. \<forall>p\<in>set (selectors cfg). fst p \<noteq> cs \<longrightarrow> \<not> isl (select_one c (snd p))"
    using look sel by simp
  from static_containers_returns[OF look', of "[]" w2]
  obtain data w3 where sc: "static_containers cfg cs containers [] w2 = (Inr data, w3)" by blast
  from static_containers_items[OF sc]
  have len: "length data = length containers"
    and items: "\<forall>i<length containers.
        static_fields cs (containers ! i) (selectors cfg) (stamps cfg (reading i w2)) = Inr (data ! i)"
    by auto
  have res: "fst (static_scrape cfg w) = Inr data"
    using static_scrape_fetched[OF h ok sel] by (simp add: cont sc[unfolded w2_def])
  show ?thesis using res len items by (auto simp: sel rd)
qed

lemma dynamic_scrape_records:
  assumes h: "chrome w = Inr b # bs"
      and nav: "navigate b (url cfg) = None"
      and wt: "truthy (wait_for_element cfg) \<longrightarrow> wait_until b (the (wait_for_element cfg)) = None"
      and sel: "selectors cfg = (cs, v) # rest"
      and cont: "page_elements b cs = Inr containers"
  shows "\<exists>data. fst (dynamic_scrape cfg w) = Inr data \<and> length data = length containers \<and>
           (\<forall>i<length containers.
              data ! i = dynamic_fields cs (containers ! i) rest
                           (stamps cfg (reading i (time_sleep 2 w))))"
proof -
  define w2 where
    "w2 = time_sleep 2 ((logger INFO (StartingDynamic (url cfg)) w)\<lparr>chrome := bs, driver := Some b\<rparr>)"
  have rd: "reading i w2 = reading i (time_sleep 2 w)" for i
    by (rule reading_cong) (simp_all add: w2_def logger_def time_sleep_def)
  from dynamic_containers_items[of cfg cs containers "[]" w2]
  obtain new where n: "fst (dynamic_containers cfg cs containers [] w2) = new"
    "length new = length containers"
    "\<forall>i<length containers.
       new ! i = dynamic_fields cs (containers ! i) (selectors cfg) (stamps cfg (reading i w2))"
    by auto
  have res: "fst (dynamic_scrape cfg w) = Inr new"
    using dynamic_scrape_shown[OF h nav wt sel] by (simp add: cont n(1)[unfolded w2_def])
  show ?thesis using res n(2,3) by (auto simp: sel rd)
qed

lemma static_item_stamped:
  assumes "static_fields cs c rest (stamps cfg t) = Inr item"
  shows "(\<forall>p\<in>set rest. fst p \<noteq> cs \<longrightarrow> fst p \<noteq> ''url'') \<longrightarrow>
           map_of item ''url'' = Some (Some (url cfg))"
    and "(\<forall>p\<in>set rest. fst p \<noteq> cs \<longrightarrow> fst p \<noteq> ''scraped_at'') \<longrightarrow>
           map_of item ''scraped_at'' = Some (Some (isoformat t))"
  using static_fields_untouched[OF assms] by (auto simp: map_of_stamps)

lemma dynamic_item_stamped:
  shows "(\<forall>p\<in>set rest. fst p \<noteq> cs \<longrightarrow> fst p \<noteq> ''url'') \<longrightarrow>
           map_of (dynamic_fields cs c rest (stamps cfg t)) ''url'' = Some (Some (url cfg))"
    and "(\<forall>p\<in>set rest. fst p \<noteq> cs \<longrightarrow> fst p \<noteq> ''scraped_at'') \<longrightarrow>
           map_of (dynamic_fields cs c rest (stamps cfg t)) ''scraped_at'' = Some (Some (isoformat t))"
  using dynamic_fields_untouched[of rest cs _ c "stamps cfg t"] by (auto simp: map_of_stamps)

section \<open>C7: one record for each container\<close>

text \<open>
  Claim C7, as the code has it. When the page is fetched (or shown by the browser) and the
  container selector matches the elements \<open>containers\<close>, the scrape returns exactly one record
  for each of them, in order; in the static scraper this needs that no field lookup raises.
  Record \<open>i\<close> is what the field loop computes from container \<open>i\<close> alone, over the remaining
  entries \<open>rest\<close> of the selectors, started from the stamped item. The time stamp of record \<open>i\<close>
  is the clock reading taken when that record is built (the \<open>i\<close>-th reading of the scrape; the
  dynamic scraper sleeps 2 units first), not one reading taken at the fetch. Both stamps stay
  in the record unless a field of the same name overwrites them.
\<close>

theorem one_record_per_container:
  "(http w = Inr resp # rs \<and> \<not> (400 \<le> status_code resp \<and> status_code resp < 600) \<and>
    selectors cfg = (cs, v) # rest \<and> select (content resp) cs = Inr containers \<and>
    (\<forall>c\<in>set containers. \<forall>p\<in>set rest. fst p \<noteq> cs \<longrightarrow> \<not> isl (select_one c (snd p))) \<longrightarrow>
    (\<exists>data. fst (static_scrape cfg w) = Inr data \<and> length data = length containers \<and>
       (\<forall>i<length containers.
          static_fields cs (containers ! i) rest (stamps cfg (reading i w)) = Inr (data ! i) \<and>
          ((\<forall>p\<in>set rest. fst p \<noteq> cs \<longrightarrow> fst p \<noteq> ''url'') \<longrightarrow>
             map_of (data ! i) ''url'' = Some (Some (url cfg))) \<and>
          ((\<forall>p\<in>set rest. fst p \<noteq> cs \<longrightarrow> fst p \<noteq> ''scraped_at'') \<longrightarrow>
             map_of (data ! i) ''scraped_at'' = Some (Some (isoformat (reading i w))))))) \<and>
   (chrome w = Inr b # bs \<and> navigate b (url cfg) = None \<and>
    (truthy (wait_for_element cfg) \<longrightarrow> wait_until b (the (wait_for_element cfg)) = None) \<and>
    selectors cfg = (cs, v) # rest \<and> page_elements b cs = Inr elements \<longrightarrow>
    (\<exists>data. fst (dynamic_scrape cfg w) = Inr data \<and> length data = length elements \<and>
       (\<forall>i<length elements.
          data ! i = dynamic_fields cs (elements ! i) rest
                       (stamps cfg (reading i (time_sleep 2 w))) \<and>
          ((\<forall>p\<in>set rest. fst p \<noteq> cs \<longrightarrow> fst p \<noteq> ''url'') \<longrightarrow>
             map_of (data ! i) ''url'' = Some (Some (url cfg))) \<and>
          ((\<forall>p\<in>set rest. fst p \<noteq> cs \<longrightarrow> fst p \<noteq> ''scraped_at'') \<longrightarrow>
             map_of (data ! i) ''scraped_at'' =
               Some (Some (isoformat (reading i (time_sleep 2 w))))))))"
proof (intro conjI impI)
  assume a: "http w = Inr resp # rs \<and> \<not> (400 \<le> status_code resp \<and> status_code resp < 600) \<and>
    selectors cfg = (cs, v) # rest \<and> select (content resp) cs = Inr containers \<and>
    (\<forall>c\<in>set containers. \<forall>p\<in>set rest. fst p \<noteq> cs \<longrightarrow> \<not> isl (select_one c (snd p)))"
  then obtain data where d: "fst (static_scrape cfg w) = Inr data"
    "length data = length containers"
    "\<forall>i<length containers.
       static_fields cs (containers ! i) rest (stamps cfg (reading i w)) = Inr (data ! i)"
    using static_scrape_records[of w resp rs cfg cs v rest containers] by blast
  show "\<exists>data. fst (static_scrape cfg w) = Inr data \<and> length data = length containers \<and>
       (\<forall>i<length containers.
          static_fields cs (containers ! i) rest (stamps cfg (reading i w)) = Inr (data ! i) \<and>
          ((\<forall>p\<in>set rest. fst p \<noteq> cs \<longrightarrow> fst p \<noteq> ''url'') \<longrightarrow>
             map_of (data ! i) ''url'' = Some (Some (url cfg))) \<and>
          ((\<forall>p\<in>set rest. fst p \<noteq> cs \<longrightarrow> fst p \<noteq> ''scraped_at'') \<longrightarrow>
             map_of (data ! i) ''scraped_at'' = Some (Some (isoformat (reading i w)))))"
    using d static_item_stamped by (intro exI[of _ data]) blast
next
  assume a: "chrome w = Inr b # bs \<and> navigate b (url cfg) = None \<and>
    (truthy (wait_for_element cfg) \<longrightarrow> wait_until b (the (wait_for_element cfg)) = None) \<and>
    selectors cfg = (cs, v) # rest \<and> page_elements b cs = Inr elements"
  then obtain data where d: "fst (dynamic_scrape cfg w) = Inr data"
    "length data = length elements"
    "\<forall>i<length elements.
       data ! i = dynamic_fields cs (elements ! i) rest (stamps cfg (reading i (time_sleep 2 w)))"
    using dynamic_scrape_records[of w b bs cfg cs v rest elements] by blast
  show "\<exists>data. fst (dynamic_scrape cfg w) = Inr data \<and> length data = length elements \<and>
       (\<forall>i<length elements.
          data ! i = dynamic_fields cs (elements ! i) rest
                       (stamps cfg (reading i (time_sleep 2 w))) \<and>
          ((\<forall>p\<in>set rest. fst p \<noteq> cs \<longrightarrow> fst p \<noteq> ''url'') \<longrightarrow>
             map_of (data ! i) ''url'' = Some (Some (url cfg))) \<and>
          ((\<forall>p\<in>set rest. fst p \<noteq> cs \<longrightarrow> fst p \<noteq> ''scraped_at'') \<longrightarrow>
             map_of (data ! i) ''scraped_at'' =
               Some (Some (isoformat (reading i (time_sleep 2 w))))))"
    using d dynamic_item_stamped by (intro exI[of _ data]) (simp add: dynamic_item_stamped)
qed

lemma static_scrape_from_containers:
  "fst (static_scrape cfg w) = Inr data \<Longrightarrow> selectors cfg = (k, v) # rest \<Longrightarrow>
   \<exists>containers w2 w3. static_containers cfg k containers [] w2 = (Inr data, w3)"
  by (auto simp: static_scrape_def Let_def split: sum.splits prod.splits)

lemma dynamic_scrape_from_containers:
  "fst (dynamic_scrape cfg w) = Inr data \<Longrightarrow> selectors cfg = (k, v) # rest \<Longrightarrow>
   \<exists>containers w2. data = fst (dynamic_containers cfg k containers [] w2)"
  by (auto simp: dynamic_scrape_def dynamic_try_def Let_def
           split: sum.splits prod.splits option.splits if_splits)
     (metis fst_conv)+

lemma static_scrape_omits_first_key:
  assumes "fst (static_scrape cfg w) = Inr data" and sel: "selectors cfg = (k, v) # rest"
  shows "\<forall>item\<in>set data. \<exists>t. map_of item k = map_of (stamps cfg t) k"
proof
  fix item assume "item \<in> set data"
  then obtain i where i: "i < length data" "item = data ! i" by (auto simp: in_set_conv_nth)
  from static_scrape_from_containers[OF assms]
  obtain containers w2 w3 where sc: "static_containers cfg k containers [] w2 = (Inr data, w3)"
    by blast
  from static_containers_items[OF sc] i(1)
  have "static_fields k (containers ! i) (selectors cfg) (stamps cfg (reading i w2)) = Inr (data ! i)"
    by auto
  from static_fields_untouched[OF this, of k]
  show "\<exists>t. map_of item k = map_of (stamps cfg t) k" using i(2) by auto
qed

lemma dynamic_scrape_omits_first_key:
  assumes "fst (dynamic_scrape cfg w) = Inr data" and sel: "selectors cfg = (k, v) # rest"
  shows "\<forall>item\<in>set data. \<exists>t. map_of item k = map_of (stamps cfg t) k"
proof
  fix item assume "item \<in> set data"
  then obtain i where i: "i < length data" "item = data ! i" by (auto simp: in_set_conv_nth)
  from dynamic_scrape_from_containers[OF assms]
  obtain containers w2 where dc: "data = fst (dynamic_containers cfg k containers [] w2)"
    by blast
  from dynamic_containers_items[of cfg k containers "[]" w2] i(1) dc
  have "data ! i = dynamic_fields k (containers ! i) (selectors cfg) (stamps cfg (reading i w2))"
    by auto
  then show "\<exists>t. map_of item k = map_of (stamps cfg t) k"
    using i(2) dynamic_fields_untouched[of "selectors cfg" k k] by auto
qed

section \<open>C10: the container selector is the first key\<close>

text \<open>
  Claim C10. With \<open>(k, v)\<close> the first entry of the selectors: the value \<open>v\<close> is never read
  (replacing it changes nothing in what either scrape returns or does); the containers are
  what the page gives for the key \<open>k\<close> as a selector (an exception of that lookup is the
  exception of the scrape, and a returned list has one record for each element it gives); and no
  record gets an entry for \<open>k\<close> from the field loop: under \<open>k\<close> a record has what the bare
  stamped item has, which is nothing unless \<open>k\<close> is the name of a stamp.
\<close>

theorem container_selector_is_first_key:
  "selectors cfg = (k, v) # rest \<Longrightarrow>
   static_scrape (cfg\<lparr>selectors := (k, v') # rest\<rparr>) w = static_scrape cfg w \<and>
   dynamic_scrape (cfg\<lparr>selectors := (k, v') # rest\<rparr>) w = dynamic_scrape cfg w \<and>
   (http w = Inr resp # rs \<and> \<not> (400 \<le> status_code resp \<and> status_code resp < 600) \<longrightarrow>
      (\<forall>e. select (content resp) k = Inl e \<longrightarrow> fst (static_scrape cfg w) = Inl e) \<and>
      (\<forall>data. fst (static_scrape cfg w) = Inr data \<longrightarrow>
         (\<exists>containers. select (content resp) k = Inr containers \<and>
                       length data = length containers))) \<and>
   (chrome w = Inr b # bs \<and> navigate b (url cfg) = None \<and>
    (truthy (wait_for_element cfg) \<longrightarrow> wait_until b (the (wait_for_element cfg)) = None) \<longrightarrow>
      (\<forall>e. page_elements b k = Inl e \<longrightarrow> fst (dynamic_scrape cfg w) = Inl e) \<and>
      (\<forall>data. fst (dynamic_scrape cfg w) = Inr data \<longrightarrow>
         (\<exists>elements. page_elements b k = Inr elements \<and> length data = length elements))) \<and>
   (\<forall>data. fst (static_scrape cfg w) = Inr data \<or> fst (dynamic_scrape cfg w) = Inr data \<longrightarrow>
      (\<forall>item\<in>set data. \<exists>t. map_of item k = map_of (stamps cfg t) k) \<and>
      (k \<noteq> ''scraped_at'' \<and> k \<noteq> ''url'' \<longrightarrow> (\<forall>item\<in>set data. k \<notin> fst ` set item)))"
proof -
  assume sel: "selectors cfg = (k, v) # rest"
  have a: "static_scrape (cfg\<lparr>selectors := (k, v') # rest\<rparr>) w = static_scrape cfg w"
    by (rule static_scrape_first_value[OF sel])
  have b: "dynamic_scrape (cfg\<lparr>selectors := (k, v') # rest\<rparr>) w = dynamic_scrape cfg w"
    by (rule dynamic_scrape_first_value[OF sel])
  have c: "(\<forall>e. select (content resp) k = Inl e \<longrightarrow> fst (static_scrape cfg w) = Inl e) \<and>
      (\<forall>data. fst (static_scrape cfg w) = Inr data \<longrightarrow>
         (\<exists>containers. select (content resp) k = Inr containers \<and>
                       length data = length containers))"
    if h: "http w = Inr resp # rs \<and> \<not> (400 \<le> status_code resp \<and> status_code resp < 600)"
  proof -
    note f = static_scrape_fetched[OF conjunct1[OF h] conjunct2[OF h] sel]
    show ?thesis
    proof (cases "select (content resp) k")
      case (Inl e)
      then show ?thesis using f by simp
    next
      case (Inr containers)
      have "length data = length containers" if "fst (static_scrape cfg w) = Inr data" for data
      proof -
        obtain r w3 where sc:
          "static_containers cfg k containers []
             ((logger INFO (StartingStatic (url cfg)) w)\<lparr>http := rs\<rparr>) = (r, w3)"
          by (metis surj_pair)
        have "r = Inr data" using f that Inr sc by (cases r) simp_all
        then show ?thesis using static_containers_items[of cfg k containers "[]" _ data w3] sc
          by auto
      qed
      then show ?thesis using Inr by simp
    qed
  qed
  have d: "(\<forall>e. page_elements b k = Inl e \<longrightarrow> fst (dynamic_scrape cfg w) = Inl e) \<and>
      (\<forall>data. fst (dynamic_scrape cfg w) = Inr data \<longrightarrow>
         (\<exists>elements. page_elements b k = Inr elements \<and> length data = length elements))"
    if h: "chrome w = Inr b # bs \<and> navigate b (url cfg) = None \<and>
      (truthy (wait_for_element cfg) \<longrightarrow> wait_until b (the (wait_for_element cfg)) = None)"
  proof -
    have f: "fst (dynamic_scrape cfg w) =
     (case page_elements b k of
        Inl e \<Rightarrow> Inl e
      | Inr containers \<Rightarrow>
          Inr (fst (dynamic_containers cfg k containers []
                 (time_sleep 2 ((logger INFO (StartingDynamic (url cfg)) w)
                                  \<lparr>chrome := bs, driver := Some b\<rparr>)))))"
      by (rule dynamic_scrape_shown[OF conjunct1[OF h] conjunct1[OF conjunct2[OF h]]
                 conjunct2[OF conjunct2[OF h]] sel])
    show ?thesis
    proof (cases "page_elements b k")
      case (Inl e)
      then show ?thesis using f by simp
    next
      case (Inr elements)
      show ?thesis
        using f Inr
              dynamic_containers_items[of cfg k elements "[]"
                "time_sleep 2 ((logger INFO (StartingDynamic (url cfg)) w)\<lparr>chrome := bs, driver := Some b\<rparr>)"]
        by auto
    qed
  qed
  have e: "(\<forall>item\<in>set data. \<exists>t. map_of item k = map_of (stamps cfg t) k) \<and>
      (k \<noteq> ''scraped_at'' \<and> k \<noteq> ''url'' \<longrightarrow> (\<forall>item\<in>set data. k \<notin> fst ` set item))"
    if r: "fst (static_scrape cfg w) = Inr data \<or> fst (dynamic_scrape cfg w) = Inr data" for data
  proof -
    have om: "\<forall>item\<in>set data. \<exists>t. map_of item k = map_of (stamps cfg t) k"
      using r static_scrape_omits_first_key[OF _ sel] dynamic_scrape_omits_first_key[OF _ sel]
      by blast
    have "\<forall>item\<in>set data. k \<notin> fst ` set item" if ne: "k \<noteq> ''scraped_at'' \<and> k \<noteq> ''url''"
    proof
      fix item assume "item \<in> set data"
      then obtain t where "map_of item k = map_of (stamps cfg t) k" using om by blast
      then have "map_of item k = None" using ne by (simp add: stamps_def)
      then show "k \<notin> fst ` set item" by (simp add: map_of_eq_None_iff)
    qed
    then show ?thesis using om by blast
  qed
  show ?thesis using a b c d e by blast
qed

lemma dynamic_containers_length:
  "length (fst (dynamic_containers cfg cs containers data w)) = length data + length containers"
  using dynamic_containers_items[of cfg cs containers data w] by auto

lemma find_element_no_match: "find_elements d sel = Inr [] \<Longrightarrow> isl (find_element d sel)"
  by (simp add: find_element_def)

section \<open>C6: the value taken from an element\<close>

text \<open>
  Claim C6, as the code has it. The value of a resolved element is its \<^verbatim>\<open>href\<close> attribute when
  that is present and not empty, else its \<^verbatim>\<open>src\<close> attribute when that is present and not
  empty, else its text. The text of the static scraper is the concatenation of the element's
  text nodes, each stripped of surrounding whitespace (for an element with one text node: that
  node stripped); the text of the dynamic scraper is the element's text stripped. Stripping
  removes whitespace at both ends and nothing else. The value is what the field loop stores
  under the field's name.
\<close>

theorem value_priority:
  "(tag_get el ''href'' = Some h \<and> h \<noteq> [] \<longrightarrow> static_value el = Some h) \<and>
   (\<not> truthy (tag_get el ''href'') \<and> tag_get el ''src'' = Some s \<and> s \<noteq> [] \<longrightarrow>
      static_value el = Some s) \<and>
   (\<not> truthy (tag_get el ''href'') \<and> \<not> truthy (tag_get el ''src'') \<longrightarrow>
      static_value el = Some (get_text_strip el)) \<and>
   (strings el = [t] \<longrightarrow> get_text_strip el = strip t) \<and>
   (get_attribute we ''href'' = Inr (Some h) \<and> h \<noteq> [] \<longrightarrow> dynamic_value we = Inr (Some h)) \<and>
   (get_attribute we ''href'' = Inr a \<and> \<not> truthy a \<and> get_attribute we ''src'' = Inr (Some s) \<and>
    s \<noteq> [] \<longrightarrow> dynamic_value we = Inr (Some s)) \<and>
   (get_attribute we ''href'' = Inr a \<and> \<not> truthy a \<and> get_attribute we ''src'' = Inr b \<and>
    \<not> truthy b \<and> el_text we = Inr t \<longrightarrow> dynamic_value we = Inr (Some (strip t))) \<and>
   (\<exists>x y. t = x @ strip t @ y \<and> list_all isspace x \<and> list_all isspace y \<and>
          (strip t \<noteq> [] \<longrightarrow> \<not> isspace (hd (strip t)) \<and> \<not> isspace (last (strip t)))) \<and>
   (static_fields cs c sels item = Inr item' \<and> distinct (map fst sels) \<and> (f, sel) \<in> set sels \<and>
    f \<noteq> cs \<and> select_one c sel = Inr (Some el) \<longrightarrow> map_of item' f = Some (static_value el)) \<and>
   (distinct (map fst sels) \<and> (f, sel) \<in> set sels \<and> f \<noteq> cs \<and> find_element d sel = Inr we \<and>
    dynamic_value we = Inr val \<longrightarrow> map_of (dynamic_fields cs d sels item) f = Some val)"
proof -
  have p1: "tag_get el ''href'' = Some h \<and> h \<noteq> [] \<longrightarrow> static_value el = Some h"
    by (simp add: static_value_def truthy_def)
  have p2: "\<not> truthy (tag_get el ''href'') \<and> tag_get el ''src'' = Some s \<and> s \<noteq> [] \<longrightarrow>
      static_value el = Some s"
    by (simp add: static_value_def truthy_def)
  have p3: "\<not> truthy (tag_get el ''href'') \<and> \<not> truthy (tag_get el ''src'') \<longrightarrow>
      static_value el = Some (get_text_strip el)"
    by (simp add: static_value_def)
  have p4: "strings el = [t] \<longrightarrow> get_text_strip el = strip t"
    by (simp add: get_text_strip_def)
  have p5: "get_attribute we ''href'' = Inr (Some h) \<and> h \<noteq> [] \<longrightarrow> dynamic_value we = Inr (Some h)"
    by (simp add: dynamic_value_def truthy_def)
  have p6: "get_attribute we ''href'' = Inr a \<and> \<not> truthy a \<and> get_attribute we ''src'' = Inr (Some s) \<and>
    s \<noteq> [] \<longrightarrow> dynamic_value we = Inr (Some s)"
    by (simp add: dynamic_value_def truthy_def)
  have p7: "get_attribute we ''href'' = Inr a \<and> \<not> truthy a \<and> get_attribute we ''src'' = Inr b \<and>
    \<not> truthy b \<and> el_text we = Inr t \<longrightarrow> dynamic_value we = Inr (Some (strip t))"
    by (simp add: dynamic_value_def)
  have p9: "static_fields cs c sels item = Inr item' \<and> distinct (map fst sels) \<and> (f, sel) \<in> set sels \<and>
    f \<noteq> cs \<and> select_one c sel = Inr (Some el) \<longrightarrow> map_of item' f = Some (static_value el)"
    using static_fields_written[of cs c sels item item' f sel] by auto
  have p10: "distinct (map fst sels) \<and> (f, sel) \<in> set sels \<and> f \<noteq> cs \<and> find_element d sel = Inr we \<and>
    dynamic_value we = Inr val \<longrightarrow> map_of (dynamic_fields cs d sels item) f = Some val"
    using dynamic_fields_written[of sels f sel cs d item] by (auto simp: dynamic_field_def)
  show ?thesis using p1 p2 p3 p4 p5 p6 p7 strip_trims[of t] p9 p10 by blast
qed

section \<open>The properties on the example pages\<close>

lemma news_items_eval:
  "fst (static_scrape news_config news_world) =
     Inr [[(''scraped_at'', Some ''3''), (''url'', Some ''https://example-news.com''),
           (''title'', Some ''First''), (''summary'', None), (''link'', Some ''/first''),
           (''date'', None)],
          [(''scraped_at'', Some ''7''), (''url'', Some ''https://example-news.com''),
           (''title'', Some ''Second''), (''summary'', None), (''link'', None),
           (''date'', None)]]"
  by (simp add: static_defs example_defs)

lemma news_items_list:
  "news_items =
     [[(''scraped_at'', Some ''3''), (''url'', Some ''https://example-news.com''),
       (''title'', Some ''First''), (''summary'', None), (''link'', Some ''/first''),
       (''date'', None)],
      [(''scraped_at'', Some ''7''), (''url'', Some ''https://example-news.com''),
       (''title'', Some ''Second''), (''summary'', None), (''link'', None),
       (''date'', None)]]"
  by (simp add: news_items_def news_items_eval)

lemmas dynamic_defs =
  dynamic_scrape_def dynamic_try_def setup_driver_def driver_quit_def dynamic_field_def
  dynamic_value_def find_element_def truthy_def strip_def isspace_def unicode_space_def
  datetime_now_def logger_def time_sleep_def isoformat_def decimal.simps

lemma shop_items_eval:
  "fst (dynamic_scrape product_config shop_world) =
     Inr [[(''scraped_at'', Some ''3''), (''url'', Some ''https://example-store.com/products''),
           (''name'', Some ''Lamp''), (''price'', None), (''image'', Some ''/lamp.png''),
           (''rating'', None)],
          [(''scraped_at'', Some ''4''), (''url'', Some ''https://example-store.com/products''),
           (''name'', Some ''Desk''), (''price'', None), (''image'', None),
           (''rating'', None)]]"
  by (simp add: dynamic_defs example_defs)

theorem one_record_per_container_witness:
  "select news_page ''article'' = Inr [article1, article2] \<and>
   length news_items = 2 \<and>
   map_of (news_items ! 1) ''url'' = Some (Some ''https://example-news.com'') \<and>
   map_of (news_items ! 1) ''scraped_at'' = Some (Some (isoformat (reading 1 news_world))) \<and>
   page_elements shop_browser ''product'' = Inr [card1, card2] \<and>
   length (projr (fst (dynamic_scrape product_config shop_world))) = 2 \<and>
   map_of (projr (fst (dynamic_scrape product_config shop_world)) ! 1) ''url'' =
     Some (Some ''https://example-store.com/products'')"
proof -
  have sp: "http news_world = Inr \<lparr>status_code = 200, content = news_page\<rparr> # [] \<and>
      \<not> (400 \<le> status_code \<lparr>status_code = 200, content = news_page\<rparr> \<and>
         status_code \<lparr>status_code = 200, content = news_page\<rparr> < 600) \<and>
      selectors news_config = (''article'', ''article.news-item'') #
        [(''title'', ''h2.title''), (''summary'', ''p.summary''), (''link'', ''a.read-more''),
         (''date'', ''span.date'')] \<and>
      select (content \<lparr>status_code = 200, content = news_page\<rparr>) ''article'' =
        Inr [article1, article2] \<and>
      (\<forall>c\<in>set [article1, article2].
         \<forall>p\<in>set [(''title'', ''h2.title''), (''summary'', ''p.summary''),
                    (''link'', ''a.read-more''), (''date'', ''span.date'')].
           fst p \<noteq> ''article'' \<longrightarrow> \<not> isl (select_one c (snd p)))"
    by (simp add: news_world_def world0_def news_config_def news_page_def css_of_def select_def
                  select_one_def article1_def article2_def)
  from one_record_per_container[THEN conjunct1, THEN mp, OF sp]
  obtain data where d: "fst (static_scrape news_config news_world) = Inr data"
    "length data = length [article1, article2]"
    "\<forall>i<length [article1, article2].
       ((\<forall>p\<in>set [(''title'', ''h2.title''), (''summary'', ''p.summary''),
                    (''link'', ''a.read-more''), (''date'', ''span.date'')].
           fst p \<noteq> ''article'' \<longrightarrow> fst p \<noteq> ''url'') \<longrightarrow>
          map_of (data ! i) ''url'' = Some (Some (url news_config))) \<and>
       ((\<forall>p\<in>set [(''title'', ''h2.title''), (''summary'', ''p.summary''),
                    (''link'', ''a.read-more''), (''date'', ''span.date'')].
           fst p \<noteq> ''article'' \<longrightarrow> fst p \<noteq> ''scraped_at'') \<longrightarrow>
          map_of (data ! i) ''scraped_at'' = Some (Some (isoformat (reading i news_world))))"
    by blast
  have ni: "news_items = data" by (simp add: news_items_def d(1))
  have s1: "length news_items = 2" using d(2) ni by simp
  have s2: "map_of (news_items ! 1) ''url'' = Some (Some ''https://example-news.com'')"
    using d(3)[rule_format, of 1] ni by (simp add: news_config_def)
  have s3: "map_of (news_items ! 1) ''scraped_at'' = Some (Some (isoformat (reading 1 news_world)))"
    using d(3)[rule_format, of 1] ni by simp
  have dp: "chrome shop_world = Inr shop_browser # [] \<and>
      navigate shop_browser (url product_config) = None \<and>
      (truthy (wait_for_element product_config) \<longrightarrow>
         wait_until shop_browser (the (wait_for_element product_config)) = None) \<and>
      selectors product_config = (''product'', ''div.product-card'') #
        [(''name'', ''h3.product-name''), (''price'', ''span.price''),
         (''image'', ''img.product-image''), (''rating'', ''div.rating'')] \<and>
      page_elements shop_browser ''product'' = Inr [card1, card2]"
    by (simp add: shop_world_def world0_def product_config_def shop_browser_def)
  from one_record_per_container[THEN conjunct2, THEN mp, OF dp]
  obtain items where e: "fst (dynamic_scrape product_config shop_world) = Inr items"
    "length items = length [card1, card2]"
    "\<forall>i<length [card1, card2].
       ((\<forall>p\<in>set [(''name'', ''h3.product-name''), (''price'', ''span.price''),
                    (''image'', ''img.product-image''), (''rating'', ''div.rating'')].
           fst p \<noteq> ''product'' \<longrightarrow> fst p \<noteq> ''url'') \<longrightarrow>
          map_of (items ! i) ''url'' = Some (Some (url product_config)))"
    by blast
  have t1: "length (projr (fst (dynamic_scrape product_config shop_world))) = 2"
    using e(1,2) by simp
  have t2: "map_of (projr (fst (dynamic_scrape product_config shop_world)) ! 1) ''url'' =
     Some (Some ''https://example-store.com/products'')"
  proof -
    have pi: "projr (fst (dynamic_scrape product_config shop_world)) = items" using e(1) by simp
    have np: "\<forall>p\<in>set [(''name'', ''h3.product-name''), (''price'', ''span.price''),
                    (''image'', ''img.product-image''), (''rating'', ''div.rating'')].
           fst p \<noteq> ''product'' \<longrightarrow> fst p \<noteq> ''url''"
      by simp
    have "(1::nat) < length [card1, card2]" by simp
    then have "map_of (items ! 1) ''url'' = Some (Some (url product_config))"
      using e(3) np by blast
    then show ?thesis unfolding pi by (simp add: product_config_def)
  qed
  show ?thesis using sp dp s1 s2 s3 t1 t2 by simp
qed

text \<open>
  The claim as stated fails on the example page: the two records of one scrape carry the
  readings 3 and 7, not one time stamp of the fetch (made at clock 0); with a malformed field
  selector the container selector still matches two elements but no record is returned; and a
  field named \<^verbatim>\<open>url\<close> takes the place of the source URL.
\<close>

theorem fetch_timestamp_counterexample:
  "now news_world = 0 \<and> length news_items = 2 \<and>
   map_of (news_items ! 0) ''scraped_at'' = Some (Some ''3'') \<and>
   map_of (news_items ! 1) ''scraped_at'' = Some (Some ''7'') \<and>
   map_of (news_items ! 0) ''scraped_at'' \<noteq> map_of (news_items ! 1) ''scraped_at'' \<and>
   select news_page ''article'' = Inr [article1, article2] \<and>
   fst (static_scrape bad_selector_config news_world) = Inl (OtherException ''SelectorSyntaxError'') \<and>
   url url_field_config = ''https://example-news.com'' \<and>
   map_of (projr (fst (static_scrape url_field_config news_world)) ! 0) ''url'' =
     Some (Some ''/first'')"
  by (simp add: news_items_list static_defs example_defs)

theorem container_selector_is_first_key_witness:
  "selectors news_config =
     (''article'', ''article.news-item'') #
       [(''title'', ''h2.title''), (''summary'', ''p.summary''), (''link'', ''a.read-more''),
        (''date'', ''span.date'')] \<and>
   static_scrape
     (news_config\<lparr>selectors := (''article'', ''div.unused'') #
        [(''title'', ''h2.title''), (''summary'', ''p.summary''), (''link'', ''a.read-more''),
         (''date'', ''span.date'')]\<rparr>) news_world =
     static_scrape news_config news_world \<and>
   select news_page ''article'' = Inr [article1, article2] \<and>
   length news_items = 2 \<and>
   ''article'' \<notin> fst ` set (news_items ! 0) \<and> ''article'' \<notin> fst ` set (news_items ! 1)"
proof -
  have sel: "selectors news_config =
     (''article'', ''article.news-item'') #
       [(''title'', ''h2.title''), (''summary'', ''p.summary''), (''link'', ''a.read-more''),
        (''date'', ''span.date'')]"
    by (simp add: news_config_def)
  note T = container_selector_is_first_key[OF sel, where w = news_world and v' = "''div.unused''"
             and resp = "\<lparr>status_code = 200, content = news_page\<rparr>" and rs = "[]"]
  have a: "static_scrape
     (news_config\<lparr>selectors := (''article'', ''div.unused'') #
        [(''title'', ''h2.title''), (''summary'', ''p.summary''), (''link'', ''a.read-more''),
         (''date'', ''span.date'')]\<rparr>) news_world =
     static_scrape news_config news_world"
    using T by blast
  have h: "http news_world = Inr \<lparr>status_code = 200, content = news_page\<rparr> # [] \<and>
      \<not> (400 \<le> status_code \<lparr>status_code = 200, content = news_page\<rparr> \<and>
         status_code \<lparr>status_code = 200, content = news_page\<rparr> < 600)"
    by (simp add: news_world_def world0_def)
  have r: "fst (static_scrape news_config news_world) = Inr news_items"
    by (simp add: news_items_def news_items_eval)
  have sp: "select news_page ''article'' = Inr [article1, article2]"
    by (simp add: select_def news_page_def css_of_def)
  from T h r obtain containers where
    c: "select (content \<lparr>status_code = 200, content = news_page\<rparr>) ''article'' = Inr containers"
       "length news_items = length containers"
    by blast
  have len: "length news_items = 2" using c sp by auto
  have ne: "''article'' \<noteq> ''scraped_at'' \<and> ''article'' \<noteq> ''url''" by simp
  have om: "\<forall>item\<in>set news_items. ''article'' \<notin> fst ` set item"
    using T r ne by blast
  have m0: "news_items ! 0 \<in> set news_items" and m1: "news_items ! 1 \<in> set news_items"
    using len by simp_all
  show ?thesis using sel a sp len om m0 m1 by blast
qed

text \<open>
  The last part of claim C10 as stated (the field named by the first key is omitted from every
  record) fails when the first key is the name of a stamp: with the container selector
  \<^verbatim>\<open>url\<close>, every record has an entry \<^verbatim>\<open>url\<close>, holding the address of the page.
\<close>

theorem first_key_stamp_counterexample:
  "selectors sitemap_config = [(''url'', ''urlset > url''), (''loc'', ''loc'')] \<and>
   fst (static_scrape sitemap_config sitemap_world) =
     Inr [[(''scraped_at'', Some ''5''), (''url'', Some ''https://example-news.com''),
           (''loc'', Some ''/first'')]] \<and>
   ''url'' \<in> fst ` set (hd (projr (fst (static_scrape sitemap_config sitemap_world)))) \<and>
   map_of (hd (projr (fst (static_scrape sitemap_config sitemap_world)))) ''url'' =
     Some (Some ''https://example-news.com'')"
  by (simp add: sitemap_config_def sitemap_world_def sitemap_page_def static_defs example_defs)

theorem value_priority_witness:
  "static_value (leaf [(''href'', ''/first''), (''src'', ''/a.png'')] [''more'']) = Some ''/first'' \<and>
   static_value (leaf [(''src'', ''/logo.png'')] [''logo'']) = Some ''/logo.png'' \<and>
   static_value (leaf [] ['' First '']) = Some ''First'' \<and>
   dynamic_value (plain_element [(''href'', ''/p/1''), (''src'', ''/a.png'')] ''one'') =
     Inr (Some ''/p/1'') \<and>
   dynamic_value (plain_element [(''src'', ''/lamp.png'')] []) = Inr (Some ''/lamp.png'') \<and>
   dynamic_value (plain_element [] '' Lamp '') = Inr (Some ''Lamp'') \<and>
   strings nbsp_price = [''12 EUR'' @ [CHR 0xA0]] \<and>
   static_value nbsp_price = Some ''12 EUR'' \<and>
   map_of (news_items ! 0) ''link'' = Some (Some ''/first'') \<and>
   map_of (dynamic_fields ''product'' card1 (selectors product_config) (stamps product_config 3))
     ''image'' = Some (Some ''/lamp.png'')"
proof -
  note p1 = value_priority[THEN conjunct1, rule_format]
  note p2 = value_priority[THEN conjunct2, THEN conjunct1, rule_format]
  note p3 = value_priority[THEN conjunct2, THEN conjunct2, THEN conjunct1, rule_format]
  note p4 = value_priority[THEN conjunct2, THEN conjunct2, THEN conjunct2, THEN conjunct1,
              rule_format]
  note p5 = value_priority[THEN conjunct2, THEN conjunct2, THEN conjunct2, THEN conjunct2,
              THEN conjunct1, rule_format]
  note p6 = value_priority[THEN conjunct2, THEN conjunct2, THEN conjunct2, THEN conjunct2,
              THEN conjunct2, THEN conjunct1, rule_format]
  note p7 = value_priority[THEN conjunct2, THEN conjunct2, THEN conjunct2, THEN conjunct2,
              THEN conjunct2, THEN conjunct2, THEN conjunct1, rule_format]
  note p9 = value_priority[THEN conjunct2, THEN conjunct2, THEN conjunct2, THEN conjunct2,
              THEN conjunct2, THEN conjunct2, THEN conjunct2, THEN conjunct2, THEN conjunct1,
              rule_format]
  note p10 = value_priority[THEN conjunct2, THEN conjunct2, THEN conjunct2, THEN conjunct2,
              THEN conjunct2, THEN conjunct2, THEN conjunct2, THEN conjunct2, THEN conjunct2,
              rule_format]
  have a1: "static_value (leaf [(''href'', ''/first''), (''src'', ''/a.png'')] [''more'']) =
              Some ''/first''"
    by (rule p1) (simp add: leaf_def tag_get_def)
  have a2: "static_value (leaf [(''src'', ''/logo.png'')] [''logo'']) = Some ''/logo.png''"
    by (rule p2) (simp add: leaf_def tag_get_def truthy_def)
  have st: "strip '' First '' = ''First''" and sl: "strip '' Lamp '' = ''Lamp''"
    by (simp_all add: strip_def isspace_def unicode_space_def)
  have a3': "static_value (leaf [] ['' First '']) = Some (get_text_strip (leaf [] ['' First '']))"
    by (rule p3) (simp add: leaf_def tag_get_def truthy_def)
  have a3'': "get_text_strip (leaf [] ['' First '']) = strip '' First ''"
    by (rule p4) (simp add: leaf_def)
  have a3: "static_value (leaf [] ['' First '']) = Some ''First''"
    using a3' a3'' st by simp
  have sn: "strip (''12 EUR'' @ [CHR 0xA0]) = ''12 EUR''"
    by (simp add: strip_def isspace_def unicode_space_def)
  have n0: "strings nbsp_price = [''12 EUR'' @ [CHR 0xA0]]"
    by (simp add: nbsp_price_def leaf_def)
  have n1: "static_value nbsp_price = Some (get_text_strip nbsp_price)"
    by (rule p3) (simp add: nbsp_price_def leaf_def tag_get_def truthy_def)
  have n2: "get_text_strip nbsp_price = strip (''12 EUR'' @ [CHR 0xA0])"
    by (rule p4) (rule n0)
  have n3: "static_value nbsp_price = Some ''12 EUR''"
    using n1 n2 sn by simp
  have b1: "dynamic_value (plain_element [(''href'', ''/p/1''), (''src'', ''/a.png'')] ''one'') =
              Inr (Some ''/p/1'')"
    by (rule p5) (simp add: plain_element_def)
  have b2: "dynamic_value (plain_element [(''src'', ''/lamp.png'')] []) = Inr (Some ''/lamp.png'')"
    by (rule p6[where a = None]) (simp add: plain_element_def truthy_def)
  have b3': "dynamic_value (plain_element [] '' Lamp '') = Inr (Some (strip '' Lamp ''))"
    by (rule p7[where a = None and b = None]) (simp add: plain_element_def truthy_def)
  have b3: "dynamic_value (plain_element [] '' Lamp '') = Inr (Some ''Lamp'')"
    using b3' sl by simp
  have sf: "static_fields ''article'' article1 (selectors news_config) (stamps news_config 3) =
              Inr (news_items ! 0)"
    by (simp add: news_items_list stamps_def static_defs example_defs)
  have so: "select_one article1 ''a.read-more'' = Inr (Some (leaf [(''href'', ''/first'')] [''more'']))"
    by (simp add: select_one_def article1_def css_of_def)
  have sv: "static_value (leaf [(''href'', ''/first'')] [''more'']) = Some ''/first''"
    by (rule p1) (simp add: leaf_def tag_get_def)
  have di: "distinct (map fst (selectors news_config))"
    and mem: "(''link'', ''a.read-more'') \<in> set (selectors news_config)"
    and ne: "''link'' \<noteq> ''article''"
    by (simp_all add: news_config_def)
  have c1: "map_of (news_items ! 0) ''link'' =
              Some (static_value (leaf [(''href'', ''/first'')] [''more'']))"
    by (rule p9[where cs = "''article''" and c = article1 and sels = "selectors news_config"
                  and item = "stamps news_config 3" and sel = "''a.read-more''"])
       (intro conjI sf di mem ne so)
  have fe: "find_element card1 ''img.product-image'' =
              Inr (plain_element [(''src'', ''/lamp.png'')] [])"
    by (simp add: find_element_def card1_def)
  have dd: "distinct (map fst (selectors product_config))"
    and dm: "(''image'', ''img.product-image'') \<in> set (selectors product_config)"
    and dn: "''image'' \<noteq> ''product''"
    by (simp_all add: product_config_def)
  have c2: "map_of (dynamic_fields ''product'' card1 (selectors product_config)
                      (stamps product_config 3)) ''image'' = Some (Some ''/lamp.png'')"
    by (rule p10[where sel = "''img.product-image''"
                   and we = "plain_element [(''src'', ''/lamp.png'')] []"])
       (intro conjI dd dm dn fe b2)
  show ?thesis using a1 a2 a3 b1 b2 b3 n0 n3 c1 sv c2 by simp
qed

text \<open>
  The claim as stated fails for an element whose \<^verbatim>\<open>href\<close> is present and empty (the text is
  taken, not the attribute), and for an element whose text is in several nodes (the nodes are
  stripped one by one, which also removes the blank between them).
\<close>

theorem value_priority_counterexample:
  "tag_get empty_href_link ''href'' = Some [] \<and>
   static_value empty_href_link = Some ''Home'' \<and>
   static_value empty_href_link \<noteq> tag_get empty_href_link ''href'' \<and>
   tag_get split_heading ''href'' = None \<and> tag_get split_heading ''src'' = None \<and>
   static_value split_heading = Some ''BreakingNews'' \<and>
   strip (concat (strings split_heading)) = ''Breaking News''"
  by (simp add: empty_href_link_def split_heading_def leaf_def static_value_def tag_get_def
                truthy_def get_text_strip_def strip_def isspace_def unicode_space_def)

section \<open>C8: a field lookup that fails\<close>

text \<open>
  Claim C8 on the code. The dynamic scraper does what the claim says: the lookup of a field
  is inside a \<^verbatim>\<open>try\<close> (lines 175 to 186), so a lookup that raises gives \<^verbatim>\<open>None\<close> for the field
  and both records of the shop page are produced. The static scraper has no such \<^verbatim>\<open>try\<close>
  around \<^verbatim>\<open>container.select_one\<close> (line 102): on the page with two articles, the lookup of the
  field selector \<^verbatim>\<open>h2[\<close>, which the selector engine cannot parse, raises; the exception leaves
  \<^verbatim>\<open>scrape\<close> with no record produced, every retry fails the same way, and the run of the job
  fails without exporting anything.
\<close>

theorem static_field_failure_escalates:
  "selectors bad_selector_config = [(''article'', ''article.news-item''), (''title'', ''h2['')] \<and>
   select news_page ''article'' = Inr [article1, article2] \<and>
   select_one article1 ''h2['' = Inl (OtherException ''SelectorSyntaxError'') \<and>
   fst (static_scrape bad_selector_config news_world) =
     Inl (OtherException ''SelectorSyntaxError'') \<and>
   fst (retry_scrape bad_selector_config (static_scrape bad_selector_config) steady_world) =
     Inl (OtherException ''SelectorSyntaxError'') \<and>
   fst (run_job_try bad_selector_config ''news_scraper'' steady_world) =
     Inl (OtherException ''SelectorSyntaxError'') \<and>
   files (snd (run_job_try bad_selector_config ''news_scraper'' steady_world)) = [] \<and>
   find_element card2 ''span.price'' = Inl (OtherException ''StaleElementReferenceException'') \<and>
   fst (dynamic_scrape product_config shop_world) =
     Inr [[(''scraped_at'', Some ''3''), (''url'', Some ''https://example-store.com/products''),
           (''name'', Some ''Lamp''), (''price'', None), (''image'', Some ''/lamp.png''),
           (''rating'', None)],
          [(''scraped_at'', Some ''4''), (''url'', Some ''https://example-store.com/products''),
           (''name'', Some ''Desk''), (''price'', None), (''image'', None),
           (''rating'', None)]]"
proof -
  have a: "selectors bad_selector_config = [(''article'', ''article.news-item''), (''title'', ''h2['')]"
    by (simp add: bad_selector_config_def)
  have b: "select news_page ''article'' = Inr [article1, article2] \<and>
     select_one article1 ''h2['' = Inl (OtherException ''SelectorSyntaxError'') \<and>
     fst (static_scrape bad_selector_config news_world) =
       Inl (OtherException ''SelectorSyntaxError'')"
    by (simp add: static_defs example_defs)
  have c: "fst (retry_scrape bad_selector_config (static_scrape bad_selector_config) steady_world) =
             Inl (OtherException ''SelectorSyntaxError'')"
    and cf: "files (snd (retry_scrape bad_selector_config (static_scrape bad_selector_config)
                           steady_world)) = []"
    by (simp_all add: retry_scrape_def retry_scrape_traced_def steady_world_def range_3 Let_def
                      static_defs example_defs)
  obtain w2 where r: "retry_scrape bad_selector_config (static_scrape bad_selector_config)
                        steady_world = (Inl (OtherException ''SelectorSyntaxError''), w2)"
    and rf: "files w2 = []"
    using c cf
    by (cases "retry_scrape bad_selector_config (static_scrape bad_selector_config) steady_world")
       auto
  have sf: "scraper_for bad_selector_config steady_world =
              (static_scrape bad_selector_config, steady_world)"
    by (simp add: scraper_for_def bad_selector_config_def news_config_def)
  have d: "fst (run_job_try bad_selector_config ''news_scraper'' steady_world) =
             Inl (OtherException ''SelectorSyntaxError'') \<and>
           files (snd (run_job_try bad_selector_config ''news_scraper'' steady_world)) = []"
    by (simp add: run_job_try_def sf r rf)
  have e: "find_element card2 ''span.price'' = Inl (OtherException ''StaleElementReferenceException'')"
    by (simp add: find_element_def card2_def)
  show ?thesis using a b c d e shop_items_eval by blast
qed

section \<open>Properties of the dispatch\<close>

lemma triggers_logger [simp]: "triggers (logger lv m w) = triggers w"
  by (simp add: logger_def)

lemma triggers_time_sleep [simp]: "triggers (time_sleep d w) = triggers w"
  by (simp add: time_sleep_def)

lemma triggers_datetime_now [simp]: "triggers (snd (datetime_now w)) = triggers w"
  by (simp add: datetime_now_def split: list.splits)

lemma triggers_session_get [simp]: "triggers (snd (session_get u w)) = triggers w"
  by (simp add: session_get_def split: list.splits)

lemma triggers_session_getD: "session_get u w = (r, w') \<Longrightarrow> triggers w' = triggers w"
  using triggers_session_get[of u w] by simp

lemma triggers_datetime_nowD: "datetime_now w = (t, w') \<Longrightarrow> triggers w' = triggers w"
  using triggers_datetime_now[of w] by simp

lemma triggers_static_containers [simp]:
  "triggers (snd (static_containers cfg cs containers data w)) = triggers w"
proof (induction containers arbitrary: data w)
  case Nil
  then show ?case by simp
next
  case (Cons c containers)
  obtain t w1 where dn: "datetime_now w = (t, w1)" by (cases "datetime_now w")
  have "triggers w1 = triggers w" using triggers_datetime_now[of w] by (simp add: dn)
  then show ?case using Cons.IH by (simp add: dn split: sum.splits)
qed

lemma triggers_static_containersD:
  "static_containers cfg cs containers data w = (r, w') \<Longrightarrow> triggers w' = triggers w"
  using triggers_static_containers[of cfg cs containers data w] by simp

lemma triggers_static_scrape [simp]: "triggers (snd (static_scrape cfg w)) = triggers w"
  by (auto simp: static_scrape_def Let_def split: sum.splits list.splits prod.splits
           dest!: triggers_session_getD triggers_static_containersD)

lemma triggers_setup_driver [simp]: "triggers (snd (setup_driver w)) = triggers w"
  by (simp add: setup_driver_def split: list.splits sum.splits)

lemma triggers_driver_quit [simp]: "triggers (driver_quit w) = triggers w"
  by (simp add: driver_quit_def split: option.splits)

lemma triggers_dynamic_containers [simp]:
  "triggers (snd (dynamic_containers cfg cs containers data w)) = triggers w"
proof (induction containers arbitrary: data w)
  case Nil
  then show ?case by simp
next
  case (Cons c containers)
  obtain t w1 where dn: "datetime_now w = (t, w1)" by (cases "datetime_now w")
  have "triggers w1 = triggers w" using triggers_datetime_now[of w] by (simp add: dn)
  then show ?case using Cons.IH by (simp add: dn)
qed

lemma triggers_setup_driverD: "setup_driver w = (r, w') \<Longrightarrow> triggers w' = triggers w"
  using triggers_setup_driver[of w] by simp

lemma triggers_dynamic_containersD:
  "dynamic_containers cfg cs containers data w = (r, w') \<Longrightarrow> triggers w' = triggers w"
  using triggers_dynamic_containers[of cfg cs containers data w] by simp

lemma triggers_dynamic_try [simp]: "triggers (snd (dynamic_try cfg w)) = triggers w"
  by (auto simp: dynamic_try_def Let_def split: sum.splits list.splits prod.splits option.splits
           dest!: triggers_setup_driverD triggers_dynamic_containersD)

lemma triggers_dynamic_scrape [simp]: "triggers (snd (dynamic_scrape cfg w)) = triggers w"
proof -
  obtain r w1 where dt: "dynamic_try cfg (logger INFO (StartingDynamic (url cfg)) w) = (r, w1)"
    by (cases "dynamic_try cfg (logger INFO (StartingDynamic (url cfg)) w)")
  have "triggers w1 = triggers w"
    using triggers_dynamic_try[of cfg "logger INFO (StartingDynamic (url cfg)) w"] by (simp add: dt)
  then show ?thesis by (simp add: dynamic_scrape_def dt)
qed

lemma triggers_retry_attempts:
  "(\<And>w. triggers (snd (scrape w)) = triggers w) \<Longrightarrow>
   triggers (snd (retry_attempts mr scrape xs st w)) = triggers w"
proof (induction xs arbitrary: st w)
  case Nil
  then show ?case by simp
next
  case (Cons a xs)
  obtain r w1 where s: "scrape w = (r, w1)" by (cases "scrape w")
  have t1: "triggers w1 = triggers w" using Cons.prems[of w] by (simp add: s)
  show ?case using Cons.IH[OF Cons.prems] t1
    by (cases r) (simp_all add: s Let_def)
qed

lemma triggers_retry_scrape:
  "(\<And>w. triggers (snd (scrape w)) = triggers w) \<Longrightarrow>
   triggers (snd (retry_scrape cfg scrape w)) = triggers w"
proof -
  assume fr: "\<And>w. triggers (snd (scrape w)) = triggers w"
  obtain r st w' where
    ra: "retry_attempts (max_retries cfg) scrape [0..<nat (max_retries cfg)] [] w = ((r, st), w')"
    by (metis surj_pair)
  have "triggers w' = triggers w"
    using triggers_retry_attempts[of scrape "max_retries cfg" "[0..<nat (max_retries cfg)]" "[]" w, OF fr]
    by (simp add: ra)
  then show ?thesis by (simp add: retry_scrape_def retry_scrape_traced_def ra)
qed

lemma triggers_to_csv [simp]: "triggers (snd (to_csv data f w)) = triggers w"
  by (simp add: to_csv_def split: option.splits)

lemma triggers_to_json [simp]: "triggers (snd (to_json data f w)) = triggers w"
  by (simp add: to_json_def split: option.splits)

lemma triggers_to_database [simp]: "triggers (snd (to_database data d t w)) = triggers w"
  by (simp add: to_database_def split: option.splits)

lemma triggers_export [simp]: "triggers (snd (export cfg n data w)) = triggers w"
proof -
  obtain t w1 where dn: "datetime_now w = (t, w1)" by (cases "datetime_now w")
  have "triggers w1 = triggers w" using triggers_datetime_now[of w] by (simp add: dn)
  then show ?thesis by (simp add: export_def dn)
qed

lemma triggers_run_job_try [simp]: "triggers (snd (run_job_try cfg n w)) = triggers w"
proof -
  obtain scrape w1 where sf: "scraper_for cfg w = (scrape, w1)" by (cases "scraper_for cfg w")
  have fr: "\<And>w. triggers (snd (scrape w)) = triggers w"
    using sf by (auto simp: scraper_for_def split: if_splits)
  have t1: "triggers w1 = triggers w"
    using sf by (auto simp: scraper_for_def split: if_splits)
  obtain r w2 where rs: "retry_scrape cfg scrape w1 = (r, w2)" by (cases "retry_scrape cfg scrape w1")
  have t2: "triggers w2 = triggers w"
    using triggers_retry_scrape[of scrape cfg w1, OF fr] t1 by (simp add: rs)
  show ?thesis
  proof (cases r)
    case (Inl e)
    then show ?thesis using t2 by (simp add: run_job_try_def sf rs)
  next
    case (Inr data)
    obtain r3 w3 where ex: "export cfg n data w2 = (r3, w3)" by (cases "export cfg n data w2")
    have "triggers w3 = triggers w" using triggers_export[of cfg n data w2] t2 by (simp add: ex)
    then show ?thesis using Inr by (cases r3) (simp_all add: run_job_try_def sf rs ex)
  qed
qed

lemma triggers_run_job [simp]: "triggers (snd (run_job s n w)) = triggers w"
proof (cases "map_of (jobs s) n")
  case None
  then show ?thesis by (simp add: run_job_def)
next
  case (Some cfg)
  obtain r w1 where t: "run_job_try cfg n (logger INFO (RunningJob n) w) = (r, w1)"
    by (cases "run_job_try cfg n (logger INFO (RunningJob n) w)")
  have "triggers w1 = triggers w"
    using triggers_run_job_try[of cfg n "logger INFO (RunningJob n) w"] by (simp add: t)
  then show ?thesis using Some by (cases r) (simp_all add: run_job_def t)
qed

lemma run_job_registered:
  "n \<in> fst ` set (jobs s) \<Longrightarrow> fst (run_job s n w) = Inr ()"
proof -
  assume "n \<in> fst ` set (jobs s)"
  then obtain cfg where "map_of (jobs s) n = Some cfg"
    by (metis map_of_eq_None_iff not_Some_eq)
  then show ?thesis
    by (auto simp: run_job_def split: prod.splits sum.splits)
qed

lemma run_job_now_returns: "fst (run_job_now s n w) = Inr ()"
  by (simp add: run_job_now_def run_job_registered)

lemma run_due_returns:
  "list_all (\<lambda>p. job_arg (snd p) \<in> fst ` set (jobs s)) ts \<Longrightarrow> registered s w \<Longrightarrow>
   fst (run_due s ts w) = Inr () \<and> registered s (snd (run_due s ts w))"
proof (induction ts arbitrary: w)
  case Nil
  then show ?case by simp
next
  case (Cons p ts)
  obtain i t where p: "p = (i, t)" by (cases p)
  have reg: "job_arg t \<in> fst ` set (jobs s)" using Cons.prems(1) p by simp
  obtain r w1 where rj: "run_job s (job_arg t) w = (r, w1)" by (cases "run_job s (job_arg t) w")
  have r: "r = Inr ()" using run_job_registered[OF reg, of w] by (simp add: rj)
  have t1: "triggers w1 = triggers w" using triggers_run_job[of s "job_arg t" w] by (simp add: rj)
  let ?w2 = "w1\<lparr>triggers := (triggers w1)[i := t\<lparr>next_run := int (now w1) + period (every t) (unit t)\<rparr>]\<rparr>"
  have "registered s ?w2"
    unfolding registered_def list_all_iff
  proof
    fix x assume "x \<in> set (triggers ?w2)"
    then have "x \<in> insert (t\<lparr>next_run := int (now w1) + period (every t) (unit t)\<rparr>) (set (triggers w))"
      using set_update_subset_insert[of "triggers w" i] t1 by auto
    then consider "x = t\<lparr>next_run := int (now w1) + period (every t) (unit t)\<rparr>"
      | "x \<in> set (triggers w)" by blast
    then show "job_arg x \<in> fst ` set (jobs s)"
    proof cases
      case 1
      then have "job_arg x = job_arg t" by simp
      then show ?thesis using reg by simp
    next
      case 2
      then show ?thesis using Cons.prems(2) unfolding registered_def list_all_iff by blast
    qed
  qed
  then show ?case using Cons.IH[of ?w2] Cons.prems(1) by (simp add: p rj r)
qed

lemma due_registered:
  "registered s w \<Longrightarrow> list_all (\<lambda>p. job_arg (snd p) \<in> fst ` set (jobs s)) (due w)"
  unfolding registered_def due_def list_all_iff
  by (auto simp: in_set_enumerate_eq)

lemma run_pending_returns:
  "registered s w \<Longrightarrow> fst (run_pending s w) = Inr () \<and> registered s (snd (run_pending s w))"
  unfolding run_pending_def using run_due_returns[OF due_registered] by blast

lemma registered_time_sleep [simp]: "registered s (time_sleep d w) = registered s w"
  by (simp add: registered_def)

lemma registered_logger [simp]: "registered s (logger lv m w) = registered s w"
  by (simp add: registered_def)

lemma scheduler_loop_running:
  "registered s w \<Longrightarrow> running s \<Longrightarrow> fst (scheduler_loop rounds s w) = StillRunning"
proof (induction rounds arbitrary: w)
  case 0
  then show ?case by simp
next
  case (Suc rounds)
  obtain r w1 where rp: "run_pending s w = (r, w1)" by (cases "run_pending s w")
  have "r = Inr ()" and "registered s w1"
    using run_pending_returns[OF Suc.prems(1)] by (simp_all add: rp)
  then show ?case using Suc.IH[of "time_sleep 1 w1"] Suc.prems(2) by (simp add: rp)
qed

lemma registered_init: "triggers w = [] \<Longrightarrow> registered init_scheduler w"
  by (simp add: registered_def)

lemma py_int_error: "py_int s = Inl e \<Longrightarrow> e = ValueError s"
  by (auto simp: py_int_def Let_def split: list.splits option.splits if_splits)

lemma add_job_stores:
  "fst (snd (add_job s cfg w)) = s\<lparr>jobs := AList.update (name cfg) cfg (jobs s)\<rparr>"
  by (simp add: add_job_def Let_def split: sum.splits prod.splits)

lemma add_job_outcome:
  "fst (add_job s cfg w) = fst (add_job s' cfg w) \<and>
   snd (snd (add_job s cfg w)) = snd (snd (add_job s' cfg w))"
  by (simp add: add_job_def Let_def split: sum.splits prod.splits)

lemma schedule_do_triggers:
  "schedule_do n u job_name w = (r, w1) \<Longrightarrow>
     take (length (triggers w)) (triggers w1) = triggers w \<and>
     length (triggers w1) \<le> Suc (length (triggers w)) \<and>
     (\<forall>t \<in> set (drop (length (triggers w)) (triggers w1)). job_arg t = job_name) \<and>
     (r \<noteq> Returned \<longrightarrow> w1 = w)"
  by (auto simp: schedule_do_def split: ending.splits)

lemma add_job_cases:
  "(\<exists>e. add_job s cfg w = (Raised e, s\<lparr>jobs := AList.update (name cfg) cfg (jobs s)\<rparr>, w)) \<or>
   (\<exists>n u r w1. schedule_do n u (name cfg) w = (r, w1) \<and>
      add_job s cfg w =
        (r, s\<lparr>jobs := AList.update (name cfg) cfg (jobs s)\<rparr>,
         if r = Returned then logger INFO (JobAdded (name cfg) (schedule_interval cfg)) w1 else w1)) \<or>
   add_job s cfg w =
     (Returned, s\<lparr>jobs := AList.update (name cfg) cfg (jobs s)\<rparr>,
      logger INFO (JobAdded (name cfg) (schedule_interval cfg))
        (logger ERROR (InvalidInterval (schedule_interval cfg)) w))"
proof -
  have branch: "\<exists>n u r w1. schedule_do n u (name cfg) w = (r, w1) \<and>
      (case schedule_do n' u' (name cfg) w of
         (r, w1) \<Rightarrow> (r, s1, if r = Returned then f w1 else w1)) =
        (r, s1, if r = Returned then f w1 else w1)" for n' u' f and s1 :: scheduler
    by (cases "schedule_do n' u' (name cfg) w") auto
  show ?thesis
    unfolding add_job_def Let_def
    by (cases "py_int (drop_last 3 (schedule_interval cfg))";
        cases "py_int (drop_last 4 (schedule_interval cfg))")
       (simp_all add: branch)
qed

lemma add_job_triggers:
  "take (length (triggers w)) (triggers (snd (snd (add_job s cfg w)))) = triggers w \<and>
   length (triggers (snd (snd (add_job s cfg w)))) \<le> Suc (length (triggers w)) \<and>
   (\<forall>t \<in> set (drop (length (triggers w)) (triggers (snd (snd (add_job s cfg w))))).
      job_arg t = name cfg) \<and>
   (fst (add_job s cfg w) \<noteq> Returned \<longrightarrow> snd (snd (add_job s cfg w)) = w)"
  using add_job_cases[of s cfg w]
proof (elim disjE exE conjE)
  fix e
  assume "add_job s cfg w = (Raised e, s\<lparr>jobs := AList.update (name cfg) cfg (jobs s)\<rparr>, w)"
  then show ?thesis by simp
next
  fix n u r w1
  assume sd: "schedule_do n u (name cfg) w = (r, w1)"
    and a: "add_job s cfg w =
        (r, s\<lparr>jobs := AList.update (name cfg) cfg (jobs s)\<rparr>,
         if r = Returned then logger INFO (JobAdded (name cfg) (schedule_interval cfg)) w1 else w1)"
  show ?thesis using schedule_do_triggers[OF sd] by (simp add: a logger_def)
next
  assume "add_job s cfg w =
     (Returned, s\<lparr>jobs := AList.update (name cfg) cfg (jobs s)\<rparr>,
      logger INFO (JobAdded (name cfg) (schedule_interval cfg))
        (logger ERROR (InvalidInterval (schedule_interval cfg)) w))"
  then show ?thesis by (simp add: logger_def)
qed

lemma registered_add_job:
  assumes "registered s w"
  shows "registered (fst (snd (add_job s cfg w))) (snd (snd (add_job s cfg w)))"
proof -
  let ?w = "snd (snd (add_job s cfg w))"
  note T = add_job_triggers[of w s cfg]
  have split: "triggers ?w = triggers w @ drop (length (triggers w)) (triggers ?w)"
    using T[THEN conjunct1] append_take_drop_id[of "length (triggers w)" "triggers ?w"] by simp
  have keys: "fst ` set (jobs (fst (snd (add_job s cfg w)))) = insert (name cfg) (fst ` set (jobs s))"
    by (simp add: add_job_stores dom_update)
  have "job_arg t \<in> fst ` set (jobs (fst (snd (add_job s cfg w))))" if t: "t \<in> set (triggers ?w)" for t
  proof -
    have "t \<in> set (triggers w) \<or> t \<in> set (drop (length (triggers w)) (triggers ?w))"
      using t split by (metis Un_iff set_append)
    then show ?thesis
    proof
      assume "t \<in> set (triggers w)"
      then have "job_arg t \<in> fst ` set (jobs s)"
        using assms unfolding registered_def list_all_iff by blast
      then show ?thesis unfolding keys by simp
    next
      assume "t \<in> set (drop (length (triggers w)) (triggers ?w))"
      then have "job_arg t = name cfg" using T by blast
      then show ?thesis unfolding keys by simp
    qed
  qed
  then show ?thesis unfolding registered_def list_all_iff by blast
qed

section \<open>C3: registering a name twice, running a name that is not registered\<close>

text \<open>
  Claim C3, as the code has it. \<^verbatim>\<open>add_job\<close> does not look at the names already registered.
  It ends (returns, raises, or hangs in the library) exactly as it does on an empty registry,
  and leaves the same world: the same log and the same jobs of the library. Afterwards the
  registry is the old one with the entry for the name set to the new configuration, so a
  second registration replaces the first and the other entries are as before. The jobs the
  library already had stay installed and at most one job, for this name, is added behind
  them; a call that does not return normally leaves the world untouched. \<^verbatim>\<open>run_job_now\<close> with
  a name that is not registered raises nothing: it logs the error and returns, with no other
  effect.
\<close>

theorem add_job_replaces:
  "fst (add_job s cfg w) = fst (add_job init_scheduler cfg w) \<and>
   snd (snd (add_job s cfg w)) = snd (snd (add_job init_scheduler cfg w)) \<and>
   fst (snd (add_job s cfg w)) = s\<lparr>jobs := AList.update (name cfg) cfg (jobs s)\<rparr> \<and>
   map_of (jobs (fst (snd (add_job s cfg w)))) (name cfg) = Some cfg \<and>
   (\<forall>k. k \<noteq> name cfg \<longrightarrow> map_of (jobs (fst (snd (add_job s cfg w)))) k = map_of (jobs s) k) \<and>
   take (length (triggers w)) (triggers (snd (snd (add_job s cfg w)))) = triggers w \<and>
   length (triggers (snd (snd (add_job s cfg w)))) \<le> Suc (length (triggers w)) \<and>
   (\<forall>t \<in> set (drop (length (triggers w)) (triggers (snd (snd (add_job s cfg w))))).
      job_arg t = name cfg) \<and>
   (fst (add_job s cfg w) \<noteq> Returned \<longrightarrow> snd (snd (add_job s cfg w)) = w) \<and>
   (job_name \<notin> fst ` set (jobs s) \<longrightarrow>
      run_job_now s job_name w = (Inr (), logger ERROR (JobNotFound job_name) w))"
proof -
  have a: "fst (add_job s cfg w) = fst (add_job init_scheduler cfg w)"
    and b: "snd (snd (add_job s cfg w)) = snd (snd (add_job init_scheduler cfg w))"
    using add_job_outcome[of s cfg w init_scheduler] by blast+
  have c: "fst (snd (add_job s cfg w)) = s\<lparr>jobs := AList.update (name cfg) cfg (jobs s)\<rparr>"
    by (rule add_job_stores)
  have d: "map_of (jobs (fst (snd (add_job s cfg w)))) (name cfg) = Some cfg"
    by (simp add: c update_conv')
  have e: "\<forall>k. k \<noteq> name cfg \<longrightarrow> map_of (jobs (fst (snd (add_job s cfg w)))) k = map_of (jobs s) k"
    by (simp add: c update_conv')
  have f: "job_name \<notin> fst ` set (jobs s) \<longrightarrow>
      run_job_now s job_name w = (Inr (), logger ERROR (JobNotFound job_name) w)"
    by (simp add: run_job_now_def)
  show ?thesis
    using a b c d e f add_job_triggers[of w s cfg] by blast
qed

lemmas registry_defs =
  add_job_def endswith_def drop_last_def py_int_def int_strip_def int_space_def unicode_space_def isdigit_def
  max_str_digits_def schedule_do_def schedule_1_2_def period_def logger_def Let_def

lemma news_registered_eval:
  "fst (add_job init_scheduler news_config world0) = Returned"
  "jobs (fst news_registered) = [(''news_scraper'', news_config)]"
  "running (fst news_registered) = False"
  "triggers (snd news_registered) =
     [\<lparr>every = 1, unit = Hours, job_arg = ''news_scraper'', next_run = 3600\<rparr>]"
  "http (snd news_registered) = []"
  "now (snd news_registered) = 0"
  by (simp_all add: news_registered_def registry_defs init_scheduler_def world0_def
                    news_config_def)

lemma library_refuses:
  "fst (add_job init_scheduler huge_config world0) = Raised OverflowError"
  "fst (add_job init_scheduler zero_config world0) = NoReturn"
  by (simp_all add: huge_config_def zero_config_def registry_defs init_scheduler_def world0_def
                    news_config_def)

lemma both_registered_eval:
  "jobs (fst both_registered) =
     [(''news_scraper'', news_config), (''product_scraper'', product_config)]"
  "triggers (snd both_registered) =
     [\<lparr>every = 1, unit = Hours, job_arg = ''news_scraper'', next_run = 3600\<rparr>,
      \<lparr>every = 30, unit = Minutes, job_arg = ''product_scraper'', next_run = 1800\<rparr>]"
  by (simp_all add: both_registered_def news_registered_def registry_defs init_scheduler_def
                    world0_def news_config_def product_config_def)

theorem add_job_replaces_witness:
  "name other_news_config = name news_config \<and>
   map_of (jobs (fst both_registered)) (name news_config) = Some news_config \<and>
   fst (add_job (fst both_registered) other_news_config (snd both_registered)) = Returned \<and>
   map_of (jobs (fst (snd (add_job (fst both_registered) other_news_config (snd both_registered)))))
     (name news_config) = Some other_news_config \<and>
   ''product_scraper'' \<noteq> name other_news_config \<and>
   map_of (jobs (fst (snd (add_job (fst both_registered) other_news_config (snd both_registered)))))
     ''product_scraper'' = Some product_config \<and>
   triggers (snd (snd (add_job (fst both_registered) other_news_config (snd both_registered)))) =
     [\<lparr>every = 1, unit = Hours, job_arg = ''news_scraper'', next_run = 3600\<rparr>,
      \<lparr>every = 30, unit = Minutes, job_arg = ''product_scraper'', next_run = 1800\<rparr>,
      \<lparr>every = 2, unit = Days, job_arg = ''news_scraper'', next_run = 172800\<rparr>] \<and>
   job_arg (triggers (snd (snd (add_job (fst both_registered) other_news_config
                                  (snd both_registered)))) ! 2) = ''news_scraper'' \<and>
   fst (add_job (fst both_registered) huge_config world0) = Raised OverflowError \<and>
   snd (snd (add_job (fst both_registered) huge_config world0)) = world0 \<and>
   fst (add_job (fst both_registered) zero_config world0) = NoReturn \<and>
   ''ghost'' \<notin> fst ` set (jobs (fst both_registered)) \<and>
   run_job_now (fst both_registered) ''ghost'' (snd both_registered) =
     (Inr (), logger ERROR (JobNotFound ''ghost'') (snd both_registered))"
proof -
  let ?W = "snd (snd (add_job (fst both_registered) other_news_config (snd both_registered)))"
  have nm: "name other_news_config = name news_config"
    by (simp add: other_news_config_def)
  have pn: "''product_scraper'' \<noteq> name other_news_config"
    by (simp add: other_news_config_def news_config_def)
  have g: "''ghost'' \<notin> fst ` set (jobs (fst both_registered))"
    by (simp add: both_registered_eval)
  have a: "map_of (jobs (fst both_registered)) (name news_config) = Some news_config"
    by (simp add: both_registered_eval news_config_def)
  have p: "map_of (jobs (fst both_registered)) ''product_scraper'' = Some product_config"
    by (simp add: both_registered_eval)
  note T = add_job_replaces[of "fst both_registered" other_news_config "snd both_registered"
             "''ghost''"]
  have r: "fst (add_job (fst both_registered) other_news_config (snd both_registered)) = Returned"
    by (simp add: both_registered_def news_registered_def other_news_config_def registry_defs
                  init_scheduler_def world0_def news_config_def product_config_def)
  have b: "map_of (jobs (fst (snd (add_job (fst both_registered) other_news_config
             (snd both_registered))))) (name news_config) = Some other_news_config"
    using T[unfolded nm] by blast
  have "map_of (jobs (fst (snd (add_job (fst both_registered) other_news_config
             (snd both_registered))))) ''product_scraper'' =
        map_of (jobs (fst both_registered)) ''product_scraper''"
    using T pn by blast
  then have k: "map_of (jobs (fst (snd (add_job (fst both_registered) other_news_config
             (snd both_registered))))) ''product_scraper'' = Some product_config"
    using p by simp
  have t: "triggers ?W =
     [\<lparr>every = 1, unit = Hours, job_arg = ''news_scraper'', next_run = 3600\<rparr>,
      \<lparr>every = 30, unit = Minutes, job_arg = ''product_scraper'', next_run = 1800\<rparr>,
      \<lparr>every = 2, unit = Days, job_arg = ''news_scraper'', next_run = 172800\<rparr>]"
    by (simp add: both_registered_def news_registered_def other_news_config_def registry_defs
                  init_scheduler_def world0_def news_config_def product_config_def)
  have len: "length (triggers (snd both_registered)) = 2"
    by (simp add: both_registered_eval)
  have "\<forall>t \<in> set (drop (length (triggers (snd both_registered))) (triggers ?W)).
          job_arg t = name other_news_config"
    using T by blast
  then have "job_arg (triggers ?W ! 2) = name other_news_config"
    unfolding len t by simp
  then have j: "job_arg (triggers ?W ! 2) = ''news_scraper''"
    unfolding nm by (simp add: news_config_def)
  note H = add_job_replaces[of "fst both_registered" huge_config world0 "''ghost''"]
  have h1: "fst (add_job (fst both_registered) huge_config world0) = Raised OverflowError"
    using H library_refuses(1) by simp
  have h2: "snd (snd (add_job (fst both_registered) huge_config world0)) = world0"
    using H h1 by (metis ending.distinct(1))
  have z: "fst (add_job (fst both_registered) zero_config world0) = NoReturn"
    using add_job_replaces[of "fst both_registered" zero_config world0 "''ghost''"]
          library_refuses(2) by simp
  have c: "run_job_now (fst both_registered) ''ghost'' (snd both_registered) =
     (Inr (), logger ERROR (JobNotFound ''ghost'') (snd both_registered))"
    using T g by blast
  show ?thesis using nm a r b pn k t j h1 h2 z g c by blast
qed

text \<open>
  The claim as stated fails: the second registration under the name of the news job returns
  without an error and takes the place of the first, and running a name that was never
  registered returns without an error.
\<close>

theorem duplicate_registration_counterexample:
  "name other_news_config = ''news_scraper'' \<and>
   map_of (jobs (fst news_registered)) ''news_scraper'' = Some news_config \<and>
   fst (add_job (fst news_registered) other_news_config (snd news_registered)) = Returned \<and>
   map_of (jobs (fst (snd (add_job (fst news_registered) other_news_config (snd news_registered)))))
     ''news_scraper'' = Some other_news_config \<and>
   other_news_config \<noteq> news_config \<and>
   fst (run_job_now init_scheduler ''ghost'' world0) = Inr () \<and>
   logs (snd (run_job_now init_scheduler ''ghost'' world0)) = [(ERROR, JobNotFound ''ghost'')]"
  by (simp add: news_registered_def run_job_now_def other_news_config_def
                registry_defs init_scheduler_def world0_def news_config_def)

section \<open>C5: an interval with no recognised unit\<close>

text \<open>
  Claim C5, as the code has it. For a job whose \<^verbatim>\<open>schedule_interval\<close> ends in none of
  \<^verbatim>\<open>min\<close>, \<^verbatim>\<open>hour\<close>, \<^verbatim>\<open>day\<close>, \<^verbatim>\<open>add_job\<close> raises nothing: it stores the job in the registry, logs
  the invalid interval as an error and the addition of the job as information, installs no
  periodic trigger, changes nothing else, and returns.
\<close>

theorem add_job_unrecognised_interval:
  "\<not> endswith (schedule_interval cfg) ''min'' \<and> \<not> endswith (schedule_interval cfg) ''hour'' \<and>
   \<not> endswith (schedule_interval cfg) ''day'' \<longrightarrow>
      add_job s cfg w =
        (Returned, s\<lparr>jobs := AList.update (name cfg) cfg (jobs s)\<rparr>,
         w\<lparr>logs := logs w @ [(ERROR, InvalidInterval (schedule_interval cfg)),
                            (INFO, JobAdded (name cfg) (schedule_interval cfg))]\<rparr>) \<and>
      fst (add_job s cfg w) = Returned \<and>
      triggers (snd (snd (add_job s cfg w))) = triggers w \<and>
      map_of (jobs (fst (snd (add_job s cfg w)))) (name cfg) = Some cfg"
  by (simp add: add_job_def Let_def update_conv' logger_def)

theorem add_job_unrecognised_interval_witness:
  "\<not> endswith (schedule_interval seconds_config) ''min'' \<and>
   \<not> endswith (schedule_interval seconds_config) ''hour'' \<and>
   \<not> endswith (schedule_interval seconds_config) ''day'' \<and>
   fst (add_job init_scheduler seconds_config world0) = Returned \<and>
   triggers (snd (snd (add_job init_scheduler seconds_config world0))) = triggers world0 \<and>
   map_of (jobs (fst (snd (add_job init_scheduler seconds_config world0)))) (name seconds_config) =
     Some seconds_config"
proof -
  have h: "\<not> endswith (schedule_interval seconds_config) ''min'' \<and>
           \<not> endswith (schedule_interval seconds_config) ''hour'' \<and>
           \<not> endswith (schedule_interval seconds_config) ''day''"
    by (simp add: seconds_config_def news_config_def endswith_def)
  note T = add_job_unrecognised_interval[of seconds_config init_scheduler world0, THEN mp, OF h]
  show ?thesis
    using h T[THEN conjunct2, THEN conjunct1] T[THEN conjunct2, THEN conjunct2] by blast
qed

text \<open>
  The claim as stated fails: registering the news job with the interval \<^verbatim>\<open>5sec\<close> returns
  without an error, and the job is in the registry with no trigger.
\<close>

theorem invalid_interval_counterexample:
  "schedule_interval seconds_config = ''5sec'' \<and>
   fst (add_job init_scheduler seconds_config world0) = Returned \<and>
   map_of (jobs (fst (snd (add_job init_scheduler seconds_config world0)))) ''news_scraper'' =
     Some seconds_config \<and>
   triggers (snd (snd (add_job init_scheduler seconds_config world0))) = [] \<and>
   logs (snd (snd (add_job init_scheduler seconds_config world0))) =
     [(ERROR, InvalidInterval ''5sec''), (INFO, JobAdded ''news_scraper'' ''5sec'')]"
  by (simp add: seconds_config_def news_config_def registry_defs init_scheduler_def world0_def)

section \<open>C4: exporting an empty batch\<close>

text \<open>
  Claim C4 on the code: \<^verbatim>\<open>to_csv\<close> and \<^verbatim>\<open>to_database\<close> return without writing when the batch
  is empty, but \<^verbatim>\<open>to_json\<close> has no such check and creates the file, holding the empty list.
\<close>

theorem to_json_writes_empty_batch:
  "fst (to_json (Some []) ''news.json'' world0) = Inr () \<and>
   files (snd (to_json (Some []) ''news.json'' world0)) = [(''news.json'', JsonFile (Some []))] \<and>
   fst (to_csv (Some []) ''news.csv'' world0) = Inr () \<and>
   files (snd (to_csv (Some []) ''news.csv'' world0)) = [] \<and>
   fst (to_database (Some []) ''news.db'' ''news'' world0) = Inr () \<and>
   tables (snd (to_database (Some []) ''news.db'' ''news'' world0)) = [] \<and>
   files (snd (to_database (Some []) ''news.db'' ''news'' world0)) = []"
  by (simp add: to_json_def to_csv_def to_database_def no_data_def logger_def world0_def)

lemma registered_running [simp]: "registered (s\<lparr>running := r\<rparr>) w = registered s w"
  by (simp add: registered_def)

lemma start_scheduler_running:
  "registered s w \<Longrightarrow> fst (start_scheduler rounds s w) = StillRunning"
  using scheduler_loop_running[of "s\<lparr>running := True\<rparr>" "logger INFO SchedulerStarted w" rounds]
  by (auto simp: start_scheduler_def Let_def split: prod.splits)

lemma run_job_logs_failure:
  "map_of (jobs s) n = Some cfg \<Longrightarrow>
   run_job_try cfg n (logger INFO (RunningJob n) w) = (Inl e, w1) \<Longrightarrow>
   run_job s n w = (Inr (), logger ERROR (JobFailed n e) w1)"
  by (simp add: run_job_def)

lemma run_job_try_failures:
  "scraper_for cfg w' = (scrape, w1) \<Longrightarrow> retry_scrape cfg scrape w1 = (Inl e, w2) \<Longrightarrow>
   run_job_try cfg n w' = (Inl e, w2)"
  "scraper_for cfg w' = (scrape, w1) \<Longrightarrow> retry_scrape cfg scrape w1 = (Inr data, w2) \<Longrightarrow>
   export cfg n data w2 = (Inl e, w3) \<Longrightarrow> run_job_try cfg n w' = (Inl e, w3)"
  by (simp_all add: run_job_try_def)

section \<open>C9: a failing run does not leave the dispatch\<close>

text \<open>
  Claim C9. Let every job of the \<^verbatim>\<open>schedule\<close> library name a registered job (so it is after
  any sequence of \<^verbatim>\<open>add_job\<close> calls). Then \<^verbatim>\<open>run_job_now\<close> never raises, \<^verbatim>\<open>_run_job\<close> never
  raises for a registered name, \<^verbatim>\<open>run_pending\<close> never raises, and the loop of
  \<^verbatim>\<open>start_scheduler\<close> is still running after any number of rounds: no exception ends it. A
  run whose scrape fails after all retries, or whose export fails, ends the \<^verbatim>\<open>try\<close> block with
  that exception, and \<^verbatim>\<open>_run_job\<close> then logs it as an error and returns.
\<close>

theorem dispatch_never_raises:
  "registered s w \<Longrightarrow>
   fst (run_job_now s n w) = Inr () \<and>
   (n \<in> fst ` set (jobs s) \<longrightarrow> fst (run_job s n w) = Inr ()) \<and>
   fst (run_pending s w) = Inr () \<and>
   (\<forall>rounds. fst (start_scheduler rounds s w) = StillRunning) \<and>
   (\<forall>cfg e w1. map_of (jobs s) n = Some cfg \<and>
       run_job_try cfg n (logger INFO (RunningJob n) w) = (Inl e, w1) \<longrightarrow>
       run_job s n w = (Inr (), logger ERROR (JobFailed n e) w1)) \<and>
   (\<forall>cfg w' scrape w1 e w2. scraper_for cfg w' = (scrape, w1) \<and>
       retry_scrape cfg scrape w1 = (Inl e, w2) \<longrightarrow> run_job_try cfg n w' = (Inl e, w2)) \<and>
   (\<forall>cfg w' scrape w1 data w2 e w3. scraper_for cfg w' = (scrape, w1) \<and>
       retry_scrape cfg scrape w1 = (Inr data, w2) \<and> export cfg n data w2 = (Inl e, w3) \<longrightarrow>
       run_job_try cfg n w' = (Inl e, w3))"
proof -
  assume reg: "registered s w"
  have a: "fst (run_job_now s n w) = Inr ()" by (rule run_job_now_returns)
  have b: "n \<in> fst ` set (jobs s) \<longrightarrow> fst (run_job s n w) = Inr ()"
    using run_job_registered by blast
  have c: "fst (run_pending s w) = Inr ()" using run_pending_returns[OF reg] by blast
  have d: "\<forall>rounds. fst (start_scheduler rounds s w) = StillRunning"
    using start_scheduler_running[OF reg] by blast
  have e: "\<forall>cfg e w1. map_of (jobs s) n = Some cfg \<and>
       run_job_try cfg n (logger INFO (RunningJob n) w) = (Inl e, w1) \<longrightarrow>
       run_job s n w = (Inr (), logger ERROR (JobFailed n e) w1)"
    by (auto intro: run_job_logs_failure)
  have f: "\<forall>cfg w' scrape w1 e w2. scraper_for cfg w' = (scrape, w1) \<and>
       retry_scrape cfg scrape w1 = (Inl e, w2) \<longrightarrow> run_job_try cfg n w' = (Inl e, w2)"
    by (auto intro: run_job_try_failures(1))
  have g: "\<forall>cfg w' scrape w1 data w2 e w3. scraper_for cfg w' = (scrape, w1) \<and>
       retry_scrape cfg scrape w1 = (Inr data, w2) \<and> export cfg n data w2 = (Inl e, w3) \<longrightarrow>
       run_job_try cfg n w' = (Inl e, w3)"
    by (auto intro: run_job_try_failures(2))
  show ?thesis by (intro conjI a b c d e f g)
qed

lemma news_registered_world:
  "snd news_registered =
     world0\<lparr>logs := [(INFO, JobAdded ''news_scraper'' ''1hour'')],
            triggers := [\<lparr>every = 1, unit = Hours, job_arg = ''news_scraper'', next_run = 3600\<rparr>]\<rparr>"
  by (simp add: news_registered_def registry_defs init_scheduler_def world0_def news_config_def)

lemmas dispatch_defs =
  run_job_now_def run_job_def run_job_try_def scraper_for_def retry_scrape_def
  retry_scrape_traced_def export_def to_csv_def to_json_def to_database_def no_data_def
  strftime_def

lemma news_run_dead:
  "logs (snd (run_job_now (fst news_registered) ''news_scraper'' (snd news_registered))) =
     [(INFO, JobAdded ''news_scraper'' ''1hour''), (INFO, RunningJob ''news_scraper''),
      (INFO, StartingStatic ''https://example-news.com''),
      (WARNING, AttemptFailed 1 (OtherException ''ConnectionError'')),
      (INFO, StartingStatic ''https://example-news.com''),
      (WARNING, AttemptFailed 2 (OtherException ''ConnectionError'')),
      (INFO, StartingStatic ''https://example-news.com''),
      (WARNING, AttemptFailed 3 (OtherException ''ConnectionError'')),
      (ERROR, JobFailed ''news_scraper'' (OtherException ''ConnectionError''))]"
  by (simp add: news_registered_world news_registered_eval dispatch_defs static_defs
                example_defs range_3)

lemma news_run_readonly:
  "logs (snd (run_job_now (fst news_registered) ''news_scraper'' readonly_world)) =
     [(INFO, JobAdded ''news_scraper'' ''1hour''), (INFO, RunningJob ''news_scraper''),
      (INFO, StartingStatic ''https://example-news.com''), (INFO, StaticCompleted 2),
      (ERROR, JobFailed ''news_scraper'' (OtherException ''PermissionError''))]"
  "files (snd (run_job_now (fst news_registered) ''news_scraper'' readonly_world)) = []"
  by (simp_all add: readonly_world_def news_registered_world news_registered_eval dispatch_defs
                    static_defs example_defs range_3)

theorem dispatch_never_raises_witness:
  "registered (fst news_registered) (snd news_registered) \<and>
   ''news_scraper'' \<in> fst ` set (jobs (fst news_registered)) \<and>
   fst (run_job_now (fst news_registered) ''news_scraper'' (snd news_registered)) = Inr () \<and>
   last (logs (snd (run_job_now (fst news_registered) ''news_scraper'' (snd news_registered)))) =
     (ERROR, JobFailed ''news_scraper'' (OtherException ''ConnectionError'')) \<and>
   fst (run_job (fst news_registered) ''news_scraper'' readonly_world) = Inr () \<and>
   last (logs (snd (run_job_now (fst news_registered) ''news_scraper'' readonly_world))) =
     (ERROR, JobFailed ''news_scraper'' (OtherException ''PermissionError'')) \<and>
   fst (start_scheduler 3 (fst news_registered) (snd news_registered)) = StillRunning"
proof -
  have r0: "registered init_scheduler world0"
    by (rule registered_init) (simp add: world0_def)
  have reg: "registered (fst news_registered) (snd news_registered)"
    using registered_add_job[OF r0, of news_config] by (simp add: news_registered_def)
  have reg2: "registered (fst news_registered) readonly_world"
    using reg by (simp add: registered_def readonly_world_def)
  have mem: "''news_scraper'' \<in> fst ` set (jobs (fst news_registered))"
    by (simp add: news_registered_eval)
  note T = dispatch_never_raises[OF reg, of "''news_scraper''"]
  note U = dispatch_never_raises[OF reg2, of "''news_scraper''"]
  have a: "fst (run_job_now (fst news_registered) ''news_scraper'' (snd news_registered)) = Inr ()"
    using T by blast
  have b: "fst (run_job (fst news_registered) ''news_scraper'' readonly_world) = Inr ()"
    using U mem by blast
  have c: "fst (start_scheduler 3 (fst news_registered) (snd news_registered)) = StillRunning"
    using T by blast
  show ?thesis using reg mem a b c by (simp add: news_run_dead news_run_readonly)
qed

end
